theory Spec2Isabelle
  imports Complex_Main "HOL-Library.Sublist"
begin

section \<open>Strings\<close>

text \<open>
  A Python \<open>str\<close> is modelled as a \<open>string\<close> holding its UTF-8 bytes. The operations
  used by \<open>app.py\<close> (\<open>==\<close>, concatenation, \<open>endswith\<close>, \<open>replace\<close> and \<open>in\<close> with
  ASCII patterns) give the same answers on the bytes as on the code points.
  \<open>s.endswith(p)\<close> is \<open>suffix p s\<close>, and \<open>p in s\<close> is \<open>sublist p s\<close>.
\<close>

text \<open>
  \<open>str.replace(old, new)\<close>: scanning from the left, every non-overlapping occurrence
  of \<open>old\<close> is replaced by \<open>new\<close>; the text produced is not scanned again. With an
  empty \<open>old\<close>, Python puts \<open>new\<close> before every character and at the end.
\<close>

function replace :: "string \<Rightarrow> string \<Rightarrow> string \<Rightarrow> string" where
  "replace old new s =
     (if old = [] then new @ concat (map (\<lambda>c. c # new) s)
      else (case s of
              [] \<Rightarrow> []
            | c # cs \<Rightarrow>
                if prefix old s then new @ replace old new (drop (length old) s)
                else c # replace old new cs))"
  by pat_completeness auto
termination
  by (relation "measure (\<lambda>(old, new, s). length s)") auto

declare replace.simps [simp del]

section \<open>Symbol handling of \<open>StockAnalyzer.get_stock_data\<close> (lines 24--30)\<close>

text \<open>
  The market is the string chosen in the sidebar. \<open>get_stock_data\<close> first computes the
  ticker handed to the data provider; the provider call itself is external.
\<close>

definition Indian_Stocks :: string where
  "Indian_Stocks = ''Indian Stocks''"

definition US_Stocks :: string where
  "US_Stocks = ''US Stocks''"

definition ticker :: "string \<Rightarrow> string \<Rightarrow> string" where
  "ticker symbol market =
     (if market = ''Indian Stocks'' then
        (if \<not> (suffix ''.NS'' symbol \<or> suffix ''.BO'' symbol) then symbol @ ''.NS''
         else symbol)
      else replace ''.BO'' '''' (replace ''.NS'' '''' symbol))"

text \<open>
  What the specification words for the foreign market: "strip any recognized domestic
  suffixes if present; otherwise pass through unchanged". Only a trailing suffix is
  touched.
\<close>

definition strip_suffix_spec :: "string \<Rightarrow> string" where
  "strip_suffix_spec symbol =
     (if suffix ''.NS'' symbol \<or> suffix ''.BO'' symbol
      then take (length symbol - 3) symbol else symbol)"

section \<open>Floating-point values\<close>

text \<open>
  The cells of a pandas frame and the scalars taken from it are IEEE-754 doubles. A
  double is modelled as a finite real number or one of the three special values.
  Rounding is not modelled: finite arithmetic is exact, and so never overflows. The two
  zeros are one value, and a non-zero number divided by zero takes the sign of the
  numerator, as it does for the divisor \<open>+0.0\<close>. The special values follow the
  standard: \<open>NaN\<close> spreads through every operation and makes every comparison false,
  \<open>inf - inf\<close>, \<open>0 * inf\<close>, \<open>0 / 0\<close> and \<open>inf / inf\<close> are \<open>NaN\<close>, and a finite
  number divided by an infinity is zero. Neither pandas nor numpy raises on a division
  by zero.
\<close>

datatype fval = Num real | PInf | NInf | NaN

fun fneg :: "fval \<Rightarrow> fval" where
  "fneg (Num a) = Num (- a)"
| "fneg PInf = NInf"
| "fneg NInf = PInf"
| "fneg NaN = NaN"

fun fadd :: "fval \<Rightarrow> fval \<Rightarrow> fval" where
  "fadd (Num a) (Num b) = Num (a + b)"
| "fadd NaN y = NaN"
| "fadd x NaN = NaN"
| "fadd PInf NInf = NaN"
| "fadd NInf PInf = NaN"
| "fadd PInf y = PInf"
| "fadd NInf y = NInf"
| "fadd x PInf = PInf"
| "fadd x NInf = NInf"

definition fsub :: "fval \<Rightarrow> fval \<Rightarrow> fval" where
  "fsub x y = fadd x (fneg y)"

fun fmul :: "fval \<Rightarrow> fval \<Rightarrow> fval" where
  "fmul (Num a) (Num b) = Num (a * b)"
| "fmul NaN y = NaN"
| "fmul x NaN = NaN"
| "fmul PInf (Num b) = (if b = 0 then NaN else if 0 < b then PInf else NInf)"
| "fmul NInf (Num b) = (if b = 0 then NaN else if 0 < b then NInf else PInf)"
| "fmul (Num a) PInf = (if a = 0 then NaN else if 0 < a then PInf else NInf)"
| "fmul (Num a) NInf = (if a = 0 then NaN else if 0 < a then NInf else PInf)"
| "fmul PInf PInf = PInf"
| "fmul PInf NInf = NInf"
| "fmul NInf PInf = NInf"
| "fmul NInf NInf = PInf"

fun fdiv :: "fval \<Rightarrow> fval \<Rightarrow> fval" where
  "fdiv (Num a) (Num b) =
     (if b = 0 then (if a = 0 then NaN else if 0 < a then PInf else NInf)
      else Num (a / b))"
| "fdiv NaN y = NaN"
| "fdiv x NaN = NaN"
| "fdiv (Num a) PInf = Num 0"
| "fdiv (Num a) NInf = Num 0"
| "fdiv PInf (Num b) = (if 0 \<le> b then PInf else NInf)"
| "fdiv NInf (Num b) = (if 0 \<le> b then NInf else PInf)"
| "fdiv PInf y = NaN"
| "fdiv NInf y = NaN"

fun flt :: "fval \<Rightarrow> fval \<Rightarrow> bool" where
  "flt (Num a) (Num b) = (a < b)"
| "flt NaN y = False"
| "flt x NaN = False"
| "flt x NInf = False"
| "flt PInf y = False"
| "flt NInf y = True"
| "flt x PInf = True"

definition fgt :: "fval \<Rightarrow> fval \<Rightarrow> bool" where
  "fgt x y = flt y x"

text \<open>
  The finite numbers that a cell can hold are the binary64 values: an integer below
  \<open>2 ^ 53\<close> in absolute value, times a power of two between \<open>2 ^ -1074\<close> and
  \<open>2 ^ 971\<close>. A result that is not such a number is rounded by the machine to one that
  is; the exact arithmetic above gives the result before that rounding.
\<close>

definition is_double :: "real \<Rightarrow> bool" where
  "is_double x \<longleftrightarrow>
     (\<exists>m k. \<bar>m\<bar> < 2 ^ 53
        \<and> ((k \<le> 971 \<and> x = real_of_int m * 2 ^ k)
            \<or> (k \<le> 1074 \<and> x = real_of_int m / 2 ^ k)))"

section \<open>Number formatting and \<open>StockAnalyzer.format_currency\<close> (lines 78--88)\<close>

text \<open>
  \<open>str_nat\<close> writes a natural number in decimal; \<open>group3\<close> puts a comma before every
  group of three digits counted from the right, as the \<open>,\<close> option of Python's format
  specification does.
\<close>

definition digit :: "nat \<Rightarrow> char" where
  "digit d = ''0123456789'' ! d"

function str_nat :: "nat \<Rightarrow> string" where
  "str_nat n = (if n < 10 then [digit n] else str_nat (n div 10) @ [digit (n mod 10)])"
  by pat_completeness auto
termination
  by (relation "measure id") auto

declare str_nat.simps [simp del]

fun group3_rev :: "string \<Rightarrow> string" where
  "group3_rev (a # b # c # d # rest) = a # b # c # CHR '','' # group3_rev (d # rest)"
| "group3_rev ds = ds"

definition group3 :: "string \<Rightarrow> string" where
  "group3 ds = rev (group3_rev (rev ds))"

text \<open>
  The presentation type \<open>f\<close> with precision 2 rounds the exact value to the nearest
  hundredth, a tie going to the even neighbour, and keeps the sign of a negative value
  that rounds to zero. \<open>signed\<close> is the \<open>+\<close> option, \<open>grouped\<close> the \<open>,\<close> option.
\<close>

definition round_half_even :: "real \<Rightarrow> int" where
  "round_half_even x =
     (let f = \<lfloor>x\<rfloor>; d = x - of_int f
      in if d < 1 / 2 then f else if 1 / 2 < d then f + 1
         else if even f then f else f + 1)"

definition fixed2 :: "bool \<Rightarrow> bool \<Rightarrow> real \<Rightarrow> string" where
  "fixed2 signed grouped x =
     (let n = nat (round_half_even (\<bar>x\<bar> * 100));
          whole = str_nat (n div 100)
      in (if x < 0 then ''-'' else if signed then ''+'' else [])
         @ (if grouped then group3 whole else whole)
         @ ''.'' @ [digit (n mod 100 div 10), digit (n mod 10)])"

fun format_f2 :: "bool \<Rightarrow> bool \<Rightarrow> fval \<Rightarrow> string" where
  "format_f2 signed grouped (Num x) = fixed2 signed grouped x"
| "format_f2 signed grouped PInf = (if signed then ''+'' else []) @ ''inf''"
| "format_f2 signed grouped NInf = ''-inf''"
| "format_f2 signed grouped NaN = (if signed then ''+'' else []) @ ''nan''"

text \<open>\<open>f"{n:,}"\<close> for an integer \<open>n\<close>.\<close>

definition format_int_grouped :: "int \<Rightarrow> string" where
  "format_int_grouped n = (if n < 0 then ''-'' else []) @ group3 (str_nat (nat \<bar>n\<bar>))"

text \<open>The rupee sign U+20B9, as its three UTF-8 bytes.\<close>

definition rupee :: string where
  "rupee = [CHR 0xE2, CHR 0x82, CHR 0xB9]"

definition get_currency_symbol :: "string \<Rightarrow> string" where
  "get_currency_symbol market = (if market = ''Indian Stocks'' then rupee else ''$'')"

definition format_currency :: "fval \<Rightarrow> string \<Rightarrow> string" where
  "format_currency val currency_symbol =
     (if currency_symbol = rupee then currency_symbol @ format_f2 False True val
      else currency_symbol @ format_f2 False False val)"

section \<open>pandas series\<close>

text \<open>
  A column is the list of its cells. The exceptions that the modelled lines can raise
  are values; \<open>str_error\<close> is the text that \<open>str(e)\<close> gives for them.
\<close>

datatype py_error = IndexError | KeyError string | ValueError | OverflowError

definition str_error :: "py_error \<Rightarrow> string" where
  "str_error e =
     (case e of
        IndexError \<Rightarrow> ''single positional indexer is out-of-bounds''
      | KeyError k \<Rightarrow> [CHR 0x27] @ k @ [CHR 0x27]
      | ValueError \<Rightarrow> ''cannot convert float NaN to integer''
      | OverflowError \<Rightarrow> ''cannot convert float infinity to integer'')"

text \<open>\<open>xs.iloc[-k]\<close> for a positive \<open>k\<close>: the \<open>k\<close>-th cell from the end, or IndexError.\<close>

definition iloc_neg :: "fval list \<Rightarrow> nat \<Rightarrow> py_error + fval" where
  "iloc_neg xs k =
     (if 0 < k \<and> k \<le> length xs then Inr (xs ! (length xs - k)) else Inl IndexError)"

text \<open>\<open>xs.diff()\<close>: the first cell is \<open>NaN\<close>, every other one is the step from the cell before.\<close>

definition diff :: "fval list \<Rightarrow> fval list" where
  "diff xs =
     (case xs of [] \<Rightarrow> [] | x # rest \<Rightarrow> NaN # map (\<lambda>(a, b). fsub a b) (zip rest xs))"

text \<open>\<open>xs.where(cond, other)\<close>, the condition being computed cell by cell from \<open>xs\<close>.\<close>

definition series_where :: "(fval \<Rightarrow> bool) \<Rightarrow> fval \<Rightarrow> fval list \<Rightarrow> fval list" where
  "series_where cond other xs = map (\<lambda>x. if cond x then x else other) xs"

definition fsum :: "fval list \<Rightarrow> fval" where
  "fsum xs = foldr fadd xs (Num 0)"

text \<open>
  \<open>xs.rolling(window=w).mean()\<close>: \<open>min_periods\<close> is the window, and pandas takes an
  infinite cell for a missing one before it looks at the windows. So the cell at \<open>i\<close> is
  \<open>NaN\<close> before \<open>w\<close> cells exist and when a cell of the window is \<open>NaN\<close> or infinite;
  otherwise it is the mean of the window, the cells \<open>i - w + 1\<close> to \<open>i\<close>.
\<close>

fun finite_cell :: "fval \<Rightarrow> bool" where
  "finite_cell (Num a) = True"
| "finite_cell x = False"

definition window :: "nat \<Rightarrow> fval list \<Rightarrow> nat \<Rightarrow> fval list" where
  "window w xs i = take w (drop (i + 1 - w) xs)"

definition window_mean :: "nat \<Rightarrow> fval list \<Rightarrow> nat \<Rightarrow> fval" where
  "window_mean w xs i =
     (if i + 1 < w \<or> \<not> list_all finite_cell (window w xs i) then NaN
      else fdiv (fsum (window w xs i)) (Num (real w)))"

definition rolling_mean :: "nat \<Rightarrow> fval list \<Rightarrow> fval list" where
  "rolling_mean w xs = map (window_mean w xs) [0..<length xs]"

text \<open>\<open>max\<close>, \<open>min\<close> and \<open>mean\<close> of a column skip its \<open>NaN\<close> cells.\<close>

definition dropna :: "fval list \<Rightarrow> fval list" where
  "dropna xs = filter (\<lambda>x. x \<noteq> NaN) xs"

definition series_max :: "fval list \<Rightarrow> fval" where
  "series_max xs =
     (case dropna xs of [] \<Rightarrow> NaN
      | y # ys \<Rightarrow> fold (\<lambda>x m. if flt m x then x else m) ys y)"

definition series_min :: "fval list \<Rightarrow> fval" where
  "series_min xs =
     (case dropna xs of [] \<Rightarrow> NaN
      | y # ys \<Rightarrow> fold (\<lambda>x m. if flt x m then x else m) ys y)"

definition series_mean :: "fval list \<Rightarrow> fval" where
  "series_mean xs =
     (case dropna xs of [] \<Rightarrow> NaN
      | y # ys \<Rightarrow> fdiv (fsum (y # ys)) (Num (real (length (y # ys)))))"

text \<open>\<open>int(x)\<close> truncates towards zero and raises on \<open>NaN\<close> and on the infinities.\<close>

definition py_int :: "fval \<Rightarrow> py_error + int" where
  "py_int x =
     (case x of
        Num a \<Rightarrow> Inr (if 0 \<le> a then \<lfloor>a\<rfloor> else \<lceil>a\<rceil>)
      | NaN \<Rightarrow> Inl ValueError
      | _ \<Rightarrow> Inl OverflowError)"

section \<open>The RSI computation of \<open>main\<close> (lines 227--232)\<close>

text \<open>
  \<open>rsi_gain\<close> and \<open>rsi_loss\<close> are the source's \<open>gain\<close> and \<open>loss\<close>, the 14-period
  averages; \<open>rsi\<close> is the column stored as \<open>df['RSI']\<close>. The first cell of \<open>delta\<close> is
  \<open>NaN\<close>; both tests are false on it, so \<open>where\<close> puts \<open>0\<close> there, and the first
  window that is full ends at index 13.
\<close>

definition rsi_gain :: "fval list \<Rightarrow> fval list" where
  "rsi_gain close =
     (let delta = diff close
      in rolling_mean 14 (series_where (\<lambda>d. fgt d (Num 0)) (Num 0) delta))"

definition rsi_loss :: "fval list \<Rightarrow> fval list" where
  "rsi_loss close =
     (let delta = diff close
      in rolling_mean 14 (map fneg (series_where (\<lambda>d. flt d (Num 0)) (Num 0) delta)))"

definition rsi :: "fval list \<Rightarrow> fval list" where
  "rsi close =
     (let gain = rsi_gain close;
          loss = rsi_loss close;
          rs = map (\<lambda>(g, l). fdiv g l) (zip gain loss)
      in map (\<lambda>r. fsub (Num 100) (fdiv (Num 100) (fadd (Num 1) r))) rs)"

section \<open>Data frames, the object store and the page\<close>

text \<open>
  A frame has an index of timestamps and named columns, in order. Column names are
  taken to be distinct, as they are in what the data provider returns.
\<close>

record dataframe =
  index :: "int list"
  data :: "(string \<times> fval list) list"

definition columns :: "dataframe \<Rightarrow> string list" where
  "columns df = map fst (data df)"

text \<open>\<open>df.empty\<close>: one of the two axes has length zero.\<close>

definition df_empty :: "dataframe \<Rightarrow> bool" where
  "df_empty df = (index df = [] \<or> data df = [])"

text \<open>\<open>df[name]\<close> as an expression, and \<open>df[name] = xs\<close> as a statement.\<close>

definition getitem :: "dataframe \<Rightarrow> string \<Rightarrow> py_error + fval list" where
  "getitem df name =
     (case map_of (data df) name of None \<Rightarrow> Inl (KeyError name) | Some xs \<Rightarrow> Inr xs)"

definition setitem :: "string \<Rightarrow> fval list \<Rightarrow> dataframe \<Rightarrow> dataframe" where
  "setitem name xs df =
     df\<lparr>data := (if name \<in> set (columns df)
                  then map (\<lambda>(n, c). if n = name then (n, xs) else (n, c)) (data df)
                  else data df @ [(name, xs)])\<rparr>"

text \<open>
  What a run puts on the page, in order. Headings, layout containers and the layout
  options of a chart carry no data of the series and are left out.
\<close>

datatype widget =
    Error string
  | Metric string string "string option"
  | Candlestick "int list" "fval list" "fval list" "fval list" "fval list"
  | Bar "int list" "fval list"
  | Scatter "int list" "fval list"

text \<open>
  Frames are Python objects: a variable holds a reference, and an assignment to a column
  changes the object for every holder of the reference. The state of a run is the store
  of frames and the page.
\<close>

record app_state =
  heap :: "nat \<Rightarrow> dataframe"
  screen :: "widget list"

definition st_error :: "string \<Rightarrow> app_state \<Rightarrow> app_state" where
  "st_error msg s = s\<lparr>screen := screen s @ [Error msg]\<rparr>"

definition st_metric :: "string \<Rightarrow> string \<Rightarrow> string option \<Rightarrow> app_state \<Rightarrow> app_state" where
  "st_metric label val delta s = s\<lparr>screen := screen s @ [Metric label val delta]\<rparr>"

definition st_plotly_chart :: "widget \<Rightarrow> app_state \<Rightarrow> app_state" where
  "st_plotly_chart fig s = s\<lparr>screen := screen s @ [fig]\<rparr>"

definition assign_column :: "nat \<Rightarrow> string \<Rightarrow> fval list \<Rightarrow> app_state \<Rightarrow> app_state" where
  "assign_column r name xs s = s\<lparr>heap := (heap s)(r := setitem name xs (heap s r))\<rparr>"

subsection \<open>\<open>StockAnalyzer.process_stock_data\<close> (lines 62--76)\<close>

text \<open>
  The argument is \<open>None\<close> or a reference; the result is \<open>None\<close> or the reference it was
  given. Nothing in the body of the \<open>try\<close> can raise.
\<close>

definition required_columns :: "string list" where
  "required_columns = [''Open'', ''High'', ''Low'', ''Close'', ''Volume'']"

definition has_required_columns :: "dataframe \<Rightarrow> bool" where
  "has_required_columns df = list_all (\<lambda>col. col \<in> set (columns df)) required_columns"

definition process_stock_data :: "nat option \<Rightarrow> app_state \<Rightarrow> nat option \<times> app_state" where
  "process_stock_data df s =
     (case df of
        None \<Rightarrow> (None, s)
      | Some r \<Rightarrow>
          if df_empty (heap s r) then (None, s)
          else if has_required_columns (heap s r)
               then (Some r, s)
               else (None, st_error ''Missing required columns in data'' s))"

subsection \<open>\<open>main\<close> from the validation to the RSI chart (lines 157--240)\<close>

text \<open>
  A section of \<open>main\<close> either runs through, giving the new state, or raises, giving the
  exception and the state reached when it was raised.
\<close>

type_synonym outcome = "py_error \<times> app_state + app_state"

definition and_then :: "outcome \<Rightarrow> (app_state \<Rightarrow> outcome) \<Rightarrow> outcome" where
  "and_then m k = (case m of Inl e \<Rightarrow> Inl e | Inr s \<Rightarrow> k s)"

text \<open>Lines 166--193: the candlestick chart and the volume chart.\<close>

definition price_chart :: "nat \<Rightarrow> app_state \<Rightarrow> outcome" where
  "price_chart r s =
     (let df = heap s r in
      (case getitem df ''Open'' of Inl e \<Rightarrow> Inl (e, s) | Inr opn \<Rightarrow>
      (case getitem df ''High'' of Inl e \<Rightarrow> Inl (e, s) | Inr high \<Rightarrow>
      (case getitem df ''Low'' of Inl e \<Rightarrow> Inl (e, s) | Inr low \<Rightarrow>
      (case getitem df ''Close'' of Inl e \<Rightarrow> Inl (e, s) | Inr close \<Rightarrow>
      (let s1 = st_plotly_chart (Candlestick (index df) opn high low close) s in
      (case getitem df ''Volume'' of Inl e \<Rightarrow> Inl (e, s1) | Inr volume \<Rightarrow>
         Inr (st_plotly_chart (Bar (index df) volume) s1))))))))"

text \<open>Lines 198--211: latest price and change, high, low, average volume.\<close>

definition key_statistics :: "string \<Rightarrow> nat \<Rightarrow> app_state \<Rightarrow> outcome" where
  "key_statistics currency_symbol r s =
     (let df = heap s r in
      (case getitem df ''Close'' of Inl e \<Rightarrow> Inl (e, s) | Inr close \<Rightarrow>
      (case iloc_neg close 1 of Inl e \<Rightarrow> Inl (e, s) | Inr latest_price \<Rightarrow>
      (case iloc_neg close 2 of Inl e \<Rightarrow> Inl (e, s) | Inr previous \<Rightarrow>
      (let price_change = fsub latest_price previous;
           price_change_pct = fmul (fdiv price_change previous) (Num 100);
           s1 = st_metric ''Latest Price'' (format_currency latest_price currency_symbol)
                  (Some (format_f2 True False price_change_pct @ ''%'')) s in
      (case getitem df ''High'' of Inl e \<Rightarrow> Inl (e, s1) | Inr high \<Rightarrow>
      (let s2 = st_metric ''52-Week High''
                  (format_currency (series_max high) currency_symbol) None s1 in
      (case getitem df ''Low'' of Inl e \<Rightarrow> Inl (e, s2) | Inr low \<Rightarrow>
      (let s3 = st_metric ''52-Week Low''
                  (format_currency (series_min low) currency_symbol) None s2 in
      (case getitem df ''Volume'' of Inl e \<Rightarrow> Inl (e, s3) | Inr volume \<Rightarrow>
      (case py_int (series_mean volume) of Inl e \<Rightarrow> Inl (e, s3) | Inr n \<Rightarrow>
         Inr (st_metric ''Average Volume'' (format_int_grouped n) None s3))))))))))))"

text \<open>
  Lines 213--223. The two columns are assigned on the frame itself; a metric is shown
  when the frame has at least as many rows as the window.
\<close>

definition show_ma ::
    "string \<Rightarrow> string \<Rightarrow> string \<Rightarrow> nat \<Rightarrow> nat \<Rightarrow> app_state \<Rightarrow> outcome" where
  "show_ma label name currency_symbol w r s =
     (let df = heap s r in
      if w \<le> length (index df) then
        (case getitem df name of Inl e \<Rightarrow> Inl (e, s) | Inr ma \<Rightarrow>
        (case iloc_neg ma 1 of Inl e \<Rightarrow> Inl (e, s) | Inr latest \<Rightarrow>
           Inr (st_metric label (format_currency latest currency_symbol) None s)))
      else Inr s)"

definition moving_averages :: "string \<Rightarrow> nat \<Rightarrow> app_state \<Rightarrow> outcome" where
  "moving_averages currency_symbol r s =
     (case getitem (heap s r) ''Close'' of Inl e \<Rightarrow> Inl (e, s) | Inr close \<Rightarrow>
     (let s1 = assign_column r ''MA50'' (rolling_mean 50 close) s in
     (case getitem (heap s1 r) ''Close'' of Inl e \<Rightarrow> Inl (e, s1) | Inr close2 \<Rightarrow>
     (let s2 = assign_column r ''MA200'' (rolling_mean 200 close2) s1 in
        and_then (show_ma ''50-Day MA'' ''MA50'' currency_symbol 50 r s2)
          (show_ma ''200-Day MA'' ''MA200'' currency_symbol 200 r)))))"

text \<open>Lines 225--240: the RSI column, assigned on the frame itself, and its chart.\<close>

definition technical_indicators :: "nat \<Rightarrow> app_state \<Rightarrow> outcome" where
  "technical_indicators r s =
     (case getitem (heap s r) ''Close'' of Inl e \<Rightarrow> Inl (e, s) | Inr close \<Rightarrow>
     (let s1 = assign_column r ''RSI'' (rsi close) s in
     (case getitem (heap s1 r) ''RSI'' of Inl e \<Rightarrow> Inl (e, s1) | Inr rsi_col \<Rightarrow>
        Inr (st_plotly_chart (Scatter (index (heap s1 r)) rsi_col) s1))))"

text \<open>
  \<open>fetched\<close> is the reference that \<open>get_stock_data\<close> returned and \<open>h\<close> the store; a run
  starts on an empty page. \<open>main_body\<close> is the body of the \<open>try\<close>, \<open>main\<close> adds the
  handler of lines 307--309. The news and chat sections that follow the RSI chart call
  external services and assign nothing to the frame; they are not modelled.
\<close>

definition main_body :: "string \<Rightarrow> nat \<Rightarrow> (nat \<Rightarrow> dataframe) \<Rightarrow> outcome" where
  "main_body market fetched h =
     (case process_stock_data (Some fetched) \<lparr>heap = h, screen = []\<rparr> of
        (df, s) \<Rightarrow>
          (let currency_symbol = get_currency_symbol market in
           (case df of
              Some r \<Rightarrow>
                and_then (and_then (and_then (price_chart r s)
                  (key_statistics currency_symbol r))
                  (moving_averages currency_symbol r))
                  (technical_indicators r)
            | None \<Rightarrow> Inr (st_error ''Unable to fetch data for the selected symbol'' s))))"

definition main :: "string \<Rightarrow> nat \<Rightarrow> (nat \<Rightarrow> dataframe) \<Rightarrow> app_state" where
  "main market fetched h =
     (case main_body market fetched h of
        Inr s \<Rightarrow> s
      | Inl (e, s) \<Rightarrow>
          st_error ''Please try another symbol or check if the stock exists''
            (st_error (''An error occurred: '' @ str_error e) s))"

text \<open>
  The metrics that lines 218--223 put on the page for a close column: each moving
  average is shown when the column has at least as many cells as its window.
\<close>

definition ma_metrics :: "string \<Rightarrow> fval list \<Rightarrow> widget list" where
  "ma_metrics currency_symbol close =
     (if 50 \<le> length close
      then [Metric ''50-Day MA''
              (format_currency (window_mean 50 close (length close - 1)) currency_symbol) None]
      else [])
     @ (if 200 \<le> length close
        then [Metric ''200-Day MA''
                (format_currency (window_mean 200 close (length close - 1)) currency_symbol) None]
        else [])"

text \<open>The store in which every reference holds the frame \<open>df\<close>.\<close>

definition store_of :: "dataframe \<Rightarrow> nat \<Rightarrow> dataframe" where
  [simp]: "store_of df a = df"

subsection \<open>Price series\<close>

text \<open>
  A price series in the sense of the specification, as a frame: at least one bar, the
  five fields present, every column as long as the index, every cell a finite number.
\<close>

definition price_series :: "dataframe \<Rightarrow> bool" where
  "price_series df \<longleftrightarrow>
     \<not> df_empty df
     \<and> has_required_columns df
     \<and> distinct (columns df)
     \<and> list_all (\<lambda>(n, xs). length xs = length (index df)
                    \<and> list_all (\<lambda>x. case x of Num a \<Rightarrow> True | _ \<Rightarrow> False) xs) (data df)"

text \<open>
  The frame of a list of bars, each a timestamp with open, high, low, close and volume.
\<close>

record bar =
  timestamp :: int
  open_price :: real
  high_price :: real
  low_price :: real
  close_price :: real
  volume :: real

definition frame_of :: "bar list \<Rightarrow> dataframe" where
  "frame_of bs =
     \<lparr>index = map timestamp bs,
      data = [(''Open'', map (\<lambda>b. Num (open_price b)) bs),
              (''High'', map (\<lambda>b. Num (high_price b)) bs),
              (''Low'', map (\<lambda>b. Num (low_price b)) bs),
              (''Close'', map (\<lambda>b. Num (close_price b)) bs),
              (''Volume'', map (\<lambda>b. Num (volume b)) bs)]\<rparr>"

definition flat_bar :: "int \<Rightarrow> real \<Rightarrow> bar" where
  "flat_bar t c =
     \<lparr>timestamp = t, open_price = c, high_price = c, low_price = c, close_price = c,
      volume = 1000\<rparr>"

subsection \<open>Facts about \<open>replace\<close>\<close>

lemma replace_Nil: "old \<noteq> [] \<Longrightarrow> replace old new [] = []"
  by (simp add: replace.simps)

lemma replace_Cons_no_prefix:
  "old \<noteq> [] \<Longrightarrow> \<not> prefix old (c # cs) \<Longrightarrow>
   replace old new (c # cs) = c # replace old new cs"
  by (simp add: replace.simps)

lemma replace_prefix:
  "old \<noteq> [] \<Longrightarrow> replace old new (old @ s) = new @ replace old new s"
proof (cases old)
  case Nil
  assume "old \<noteq> []"
  with Nil show ?thesis by simp
next
  case (Cons a as)
  show ?thesis by (subst replace.simps) (simp add: Cons)
qed

lemma replace_absent:
  "old \<noteq> [] \<Longrightarrow> \<not> sublist old s \<Longrightarrow> replace old new s = s"
proof (induction s)
  case Nil
  then show ?case by (simp add: replace_Nil)
next
  case (Cons c cs)
  from Cons.prems have np: "\<not> prefix old (c # cs)" and ns: "\<not> sublist old cs"
    by (auto simp: sublist_Cons_right)
  with Cons show ?case by (simp add: replace_Cons_no_prefix)
qed

lemma length_replace_le:
  assumes "old \<noteq> []"
  shows "length (replace old [] s) \<le> length s"
proof (induction s rule: length_induct)
  case (1 s)
  show ?case
  proof (cases s)
    case Nil
    with assms show ?thesis by (simp add: replace_Nil)
  next
    case (Cons c cs)
    show ?thesis
    proof (cases "prefix old s")
      case True
      then obtain r where r: "s = old @ r" by (auto simp: prefix_def)
      with assms have "length r < length s" by simp
      with "1.IH" have "length (replace old [] r) \<le> length r" by blast
      with assms show ?thesis unfolding r by (simp add: replace_prefix)
    next
      case False
      from Cons have "length cs < length s" by simp
      with "1.IH" have "length (replace old [] cs) \<le> length cs" by blast
      with assms False show ?thesis unfolding Cons by (simp add: replace_Cons_no_prefix)
    qed
  qed
qed

lemma length_replace_less:
  "old \<noteq> [] \<Longrightarrow> sublist old s \<Longrightarrow> length (replace old [] s) < length s"
proof (induction s)
  case Nil
  then show ?case by simp
next
  case (Cons c cs)
  show ?case
  proof (cases "prefix old (c # cs)")
    case True
    then obtain r where r: "c # cs = old @ r" by (auto simp: prefix_def)
    have le: "length (replace old [] r) \<le> length r"
      using Cons.prems(1) by (rule length_replace_le)
    have pos: "Suc 0 \<le> length old" using Cons.prems(1) by (cases old) simp_all
    have eq: "replace old [] (old @ r) = replace old [] r"
      using Cons.prems(1) by (simp add: replace_prefix)
    have "length (replace old [] r) < length old + length r"
      using le pos by linarith
    with eq show ?thesis unfolding r by simp
  next
    case False
    with Cons.prems have "sublist old cs" by (simp add: sublist_Cons_right)
    with Cons.IH Cons.prems(1) False show ?thesis
      by (simp add: replace_Cons_no_prefix)
  qed
qed

lemma replace_fixed_iff:
  assumes "old \<noteq> []"
  shows "replace old [] s = s \<longleftrightarrow> \<not> sublist old s"
proof
  assume eq: "replace old [] s = s"
  show "\<not> sublist old s"
  proof
    assume "sublist old s"
    with assms have "length (replace old [] s) < length s" by (rule length_replace_less)
    with eq show False by simp
  qed
next
  assume "\<not> sublist old s"
  with assms show "replace old [] s = s" by (rule replace_absent)
qed

lemma ticker_US_fixed_iff:
  "market \<noteq> ''Indian Stocks'' \<Longrightarrow>
   ticker t market = t \<longleftrightarrow> \<not> sublist ''.NS'' t \<and> \<not> sublist ''.BO'' t"
proof -
  assume m: "market \<noteq> ''Indian Stocks''"
  let ?u = "replace ''.NS'' '''' t"
  have tk: "ticker t market = replace ''.BO'' '''' ?u" using m by (simp add: ticker_def)
  show ?thesis
  proof (cases "sublist ''.NS'' t")
    case True
    then have "length ?u < length t" by (simp add: length_replace_less)
    moreover have "length (replace ''.BO'' '''' ?u) \<le> length ?u"
      by (simp add: length_replace_le)
    ultimately have "length (ticker t market) < length t" using tk by simp
    then have "ticker t market \<noteq> t" by auto
    with True show ?thesis by simp
  next
    case False
    then have "?u = t" by (simp add: replace_absent)
    with tk False show ?thesis by (simp add: replace_fixed_iff)
  qed
qed

lemma replace_NS_skip:
  "\<not> sublist ''.NS'' a \<Longrightarrow>
   replace ''.NS'' new (a @ ''.NS'' @ b) = a @ new @ replace ''.NS'' new b"
proof (induction a)
  case Nil
  show ?case using replace_prefix [of "''.NS''" new b] by simp
next
  case (Cons c cs)
  from Cons.prems have np: "\<not> prefix ''.NS'' (c # cs)" and ns: "\<not> sublist ''.NS'' cs"
    by (auto simp: sublist_Cons_right)
  have "\<not> prefix ''.NS'' (c # cs @ ''.NS'' @ b)"
  proof (cases cs)
    case Nil
    then show ?thesis by simp
  next
    case c1: (Cons d ds)
    show ?thesis
    proof (cases ds)
      case Nil
      with c1 show ?thesis by simp
    next
      case (Cons e es)
      with c1 np show ?thesis by simp
    qed
  qed
  then have "replace ''.NS'' new ((c # cs) @ ''.NS'' @ b)
      = c # replace ''.NS'' new (cs @ ''.NS'' @ b)"
    by (simp add: replace_Cons_no_prefix)
  with Cons.IH [OF ns] show ?case by simp
qed

lemma replace_BO_skip:
  "\<not> sublist ''.BO'' a \<Longrightarrow>
   replace ''.BO'' new (a @ ''.BO'' @ b) = a @ new @ replace ''.BO'' new b"
proof (induction a)
  case Nil
  show ?case using replace_prefix [of "''.BO''" new b] by simp
next
  case (Cons c cs)
  from Cons.prems have np: "\<not> prefix ''.BO'' (c # cs)" and ns: "\<not> sublist ''.BO'' cs"
    by (auto simp: sublist_Cons_right)
  have "\<not> prefix ''.BO'' (c # cs @ ''.BO'' @ b)"
  proof (cases cs)
    case Nil
    then show ?thesis by simp
  next
    case c1: (Cons d ds)
    show ?thesis
    proof (cases ds)
      case Nil
      with c1 show ?thesis by simp
    next
      case (Cons e es)
      with c1 np show ?thesis by simp
    qed
  qed
  then have "replace ''.BO'' new ((c # cs) @ ''.BO'' @ b)
      = c # replace ''.BO'' new (cs @ ''.BO'' @ b)"
    by (simp add: replace_Cons_no_prefix)
  with Cons.IH [OF ns] show ?case by simp
qed

subsection \<open>Claims about the symbol handling\<close>

text \<open>
  C7. For the Indian market a symbol that ends with neither \<open>.NS\<close> nor \<open>.BO\<close> gains
  exactly one \<open>.NS\<close> at its end, and a symbol that already ends with \<open>.NS\<close> or \<open>.BO\<close>
  is returned unchanged.
\<close>

theorem ticker_indian_suffix:
  "(\<not> suffix ''.NS'' symbol \<and> \<not> suffix ''.BO'' symbol \<longrightarrow>
      ticker symbol Indian_Stocks = symbol @ ''.NS'')
   \<and> (suffix ''.NS'' symbol \<or> suffix ''.BO'' symbol \<longrightarrow>
      ticker symbol Indian_Stocks = symbol)"
  by (simp add: ticker_def Indian_Stocks_def)

theorem ticker_indian_suffix_witness:
  "\<not> suffix ''.NS'' ''TCS'' \<and> \<not> suffix ''.BO'' ''TCS''
   \<and> ticker ''TCS'' Indian_Stocks = ''TCS.NS''
   \<and> suffix ''.BO'' ''TCS.BO''
   \<and> ticker ''TCS.BO'' Indian_Stocks = ''TCS.BO''"
  using ticker_indian_suffix [of "''TCS''"] ticker_indian_suffix [of "''TCS.BO''"]
  by (simp add: suffix_to_prefix)

text \<open>
  C3, as the specification states it, fails for the US market: removing \<open>.NS\<close> from
  \<open>.N.NSS\<close> joins the two halves into a new \<open>.NS\<close>, which the next call removes.
\<close>

theorem ticker_not_idempotent_counterexample:
  "ticker (ticker ''.N.NSS'' US_Stocks) US_Stocks \<noteq> ticker ''.N.NSS'' US_Stocks"
  by (simp add: ticker_def US_Stocks_def replace.simps)

text \<open>
  C3, amended. For the Indian market the symbol handling is idempotent on every string.
  For the US market a second application changes nothing exactly when the first result
  contains neither \<open>.NS\<close> nor \<open>.BO\<close>.
\<close>

theorem ticker_idempotent_amended:
  "ticker (ticker s Indian_Stocks) Indian_Stocks = ticker s Indian_Stocks
   \<and> (ticker (ticker s US_Stocks) US_Stocks = ticker s US_Stocks
        \<longleftrightarrow> \<not> sublist ''.NS'' (ticker s US_Stocks)
            \<and> \<not> sublist ''.BO'' (ticker s US_Stocks))"
proof
  show "ticker (ticker s Indian_Stocks) Indian_Stocks = ticker s Indian_Stocks"
    by (auto simp: ticker_def Indian_Stocks_def suffix_def)
next
  have "US_Stocks \<noteq> ''Indian Stocks''" by (simp add: US_Stocks_def)
  then show "ticker (ticker s US_Stocks) US_Stocks = ticker s US_Stocks
        \<longleftrightarrow> \<not> sublist ''.NS'' (ticker s US_Stocks)
            \<and> \<not> sublist ''.BO'' (ticker s US_Stocks)"
    by (rule ticker_US_fixed_iff)
qed

theorem ticker_idempotent_amended_witness:
  "ticker (ticker ''RELIANCE'' Indian_Stocks) Indian_Stocks = ''RELIANCE.NS''
   \<and> ticker ''RELIANCE'' Indian_Stocks = ''RELIANCE.NS''
   \<and> ticker ''INFY.NS'' US_Stocks = ''INFY''
   \<and> \<not> sublist ''.NS'' ''INFY'' \<and> \<not> sublist ''.BO'' ''INFY''
   \<and> ticker (ticker ''INFY.NS'' US_Stocks) US_Stocks = ''INFY''"
proof -
  have a: "ticker ''RELIANCE'' Indian_Stocks = ''RELIANCE.NS''"
    by (simp add: ticker_def Indian_Stocks_def suffix_to_prefix)
  have b: "ticker ''INFY.NS'' US_Stocks = ''INFY''"
    by (simp add: ticker_def US_Stocks_def replace.simps)
  have c: "\<not> sublist ''.NS'' ''INFY'' \<and> \<not> sublist ''.BO'' ''INFY''"
    by (simp add: sublist_Cons_right)
  from ticker_idempotent_amended [of "''RELIANCE''"] ticker_idempotent_amended [of "''INFY.NS''"]
    a b c
  show ?thesis by simp
qed

text \<open>
  C10. For the US market every occurrence of \<open>.NS\<close> is removed wherever it stands: an
  occurrence after any text \<open>a\<close> free of \<open>.NS\<close> is cut out and the scan goes on behind
  it; then \<open>.BO\<close> is removed the same way from what is left. On \<open>A.NSB\<close> this differs
  from stripping a trailing suffix only.
\<close>

theorem ticker_us_removes_anywhere:
  "(\<not> sublist ''.NS'' a \<longrightarrow>
      ticker (a @ ''.NS'' @ b) US_Stocks = replace ''.BO'' '''' (a @ replace ''.NS'' '''' b))
   \<and> (\<not> sublist ''.NS'' (a @ ''.BO'' @ b) \<and> \<not> sublist ''.BO'' a \<longrightarrow>
      ticker (a @ ''.BO'' @ b) US_Stocks = a @ replace ''.BO'' '''' b)
   \<and> ticker ''A.NSB'' US_Stocks = ''AB''
   \<and> strip_suffix_spec ''A.NSB'' = ''A.NSB''"
proof -
  have us: "US_Stocks \<noteq> ''Indian Stocks''" by (simp add: US_Stocks_def)
  have 1: "\<not> sublist ''.NS'' a \<longrightarrow>
      ticker (a @ ''.NS'' @ b) US_Stocks = replace ''.BO'' '''' (a @ replace ''.NS'' '''' b)"
    using us replace_NS_skip [of a "''''" b] by (simp add: ticker_def)
  have 2: "\<not> sublist ''.NS'' (a @ ''.BO'' @ b) \<and> \<not> sublist ''.BO'' a \<longrightarrow>
      ticker (a @ ''.BO'' @ b) US_Stocks = a @ replace ''.BO'' '''' b"
  proof
    assume h: "\<not> sublist ''.NS'' (a @ ''.BO'' @ b) \<and> \<not> sublist ''.BO'' a"
    then have "replace ''.NS'' '''' (a @ ''.BO'' @ b) = a @ ''.BO'' @ b"
      by (simp add: replace_absent)
    with h us replace_BO_skip [of a "''''" b]
    show "ticker (a @ ''.BO'' @ b) US_Stocks = a @ replace ''.BO'' '''' b"
      by (simp add: ticker_def)
  qed
  have 3: "ticker ''A.NSB'' US_Stocks = ''AB''"
    by (simp add: ticker_def US_Stocks_def replace.simps)
  have 4: "strip_suffix_spec ''A.NSB'' = ''A.NSB''"
    by (simp add: strip_suffix_spec_def suffix_to_prefix)
  from 1 2 3 4 show ?thesis by blast
qed

theorem ticker_us_removes_anywhere_witness:
  "\<not> sublist ''.NS'' ''AB'' \<and> ticker ''AB.NSCD.NS'' US_Stocks = ''ABCD''
   \<and> \<not> sublist ''.NS'' ''X.BOY'' \<and> \<not> sublist ''.BO'' ''X''
   \<and> ticker ''X.BOY'' US_Stocks = ''XY''"
proof -
  have a: "\<not> sublist ''.NS'' ''AB''" by (simp add: sublist_Cons_right)
  have b: "\<not> sublist ''.NS'' (''X'' @ ''.BO'' @ ''Y'') \<and> \<not> sublist ''.BO'' ''X''"
    by (simp add: sublist_Cons_right)
  have c: "replace ''.BO'' '''' (''AB'' @ replace ''.NS'' '''' ''CD.NS'') = ''ABCD''"
    by (simp add: replace.simps)
  have d: "''X'' @ replace ''.BO'' '''' ''Y'' = ''XY''"
    by (simp add: replace.simps)
  from ticker_us_removes_anywhere [of "''AB''" "''CD.NS''"]
    ticker_us_removes_anywhere [of "''X''" "''Y''"] a b c d
  show ?thesis by simp
qed

subsection \<open>Facts about the number formats\<close>

lemma digit_not_comma: "d < 10 \<Longrightarrow> digit d \<noteq> CHR '',''"
proof -
  assume "d < 10"
  then have "d \<in> {0, 1, 2, 3, 4, 5, 6, 7, 8, 9}" by auto
  then show ?thesis by (auto simp: digit_def)
qed

lemma str_nat_no_comma: "CHR '','' \<notin> set (str_nat n)"
proof (induction n rule: str_nat.induct)
  case (1 n)
  show ?case
  proof (cases "n < 10")
    case True
    then show ?thesis using digit_not_comma [of n] by (simp add: str_nat.simps [of n])
  next
    case False
    have "n mod 10 < 10" by simp
    then have "digit (n mod 10) \<noteq> CHR '',''" by (rule digit_not_comma)
    with False "1.IH" show ?thesis by (simp add: str_nat.simps [of n])
  qed
qed

lemma filter_group3_rev:
  "filter (\<lambda>c. c \<noteq> CHR '','') (group3_rev ds) = filter (\<lambda>c. c \<noteq> CHR '','') ds"
  by (induction ds rule: group3_rev.induct) simp_all

lemma filter_group3:
  "filter (\<lambda>c. c \<noteq> CHR '','') (group3 ds) = filter (\<lambda>c. c \<noteq> CHR '','') ds"
  by (simp add: group3_def filter_group3_rev flip: rev_filter)

lemma ungroup_str_nat:
  "filter (\<lambda>c. c \<noteq> CHR '','') (group3 (str_nat n)) = str_nat n"
  using str_nat_no_comma [of n] by (auto simp: filter_group3 filter_id_conv)

lemma ungroup_fixed2:
  "filter (\<lambda>c. c \<noteq> CHR '','') (fixed2 False True x) = fixed2 False False x"
proof -
  have d: "\<And>k. k < 10 \<Longrightarrow> digit k \<noteq> CHR '',''" by (rule digit_not_comma)
  have a: "nat (round_half_even (\<bar>x\<bar> * 100)) mod 100 div 10 < 10" by simp
  have b: "nat (round_half_even (\<bar>x\<bar> * 100)) mod 10 < 10" by simp
  show ?thesis using d [OF a] d [OF b]
    by (simp add: fixed2_def Let_def ungroup_str_nat)
qed

lemma ungroup_format_f2:
  "filter (\<lambda>c. c \<noteq> CHR '','') (format_f2 False True v) = format_f2 False False v"
  by (cases v) (simp_all add: ungroup_fixed2)

subsection \<open>Claim about \<open>format_currency\<close>\<close>

text \<open>
  C9. \<open>format_currency\<close> puts the symbol before the value written with two decimals,
  with thousands separators exactly when the symbol is the rupee sign and without them
  for every other symbol. The grouped form is the plain one with commas added: deleting
  the commas gives the plain form back. In particular 1234.5 is written \<open>1,234.50\<close>
  after the rupee sign and \<open>$1234.50\<close> with the dollar sign.
\<close>

theorem format_currency_modes:
  "format_currency v cur = cur @ format_f2 False (cur = rupee) v
   \<and> filter (\<lambda>c. c \<noteq> CHR '','') (format_f2 False True v) = format_f2 False False v
   \<and> format_currency (Num 1234.5) rupee = rupee @ ''1,234.50''
   \<and> format_currency (Num 1234.5) ''$'' = ''$1234.50''
   \<and> format_currency (Num 1234567.891) rupee = rupee @ ''1,234,567.89''"
proof -
  have 1: "format_currency v cur = cur @ format_f2 False (cur = rupee) v"
    by (simp add: format_currency_def)
  have 3: "format_currency (Num 1234.5) rupee = rupee @ ''1,234.50''"
    by (simp add: format_currency_def fixed2_def round_half_even_def group3_def
        str_nat.simps digit_def)
  have 4: "format_currency (Num 1234.5) ''$'' = ''$1234.50''"
    by (simp add: format_currency_def fixed2_def round_half_even_def
        str_nat.simps digit_def rupee_def)
  have 5: "format_currency (Num 1234567.891) rupee = rupee @ ''1,234,567.89''"
    by (simp add: format_currency_def fixed2_def round_half_even_def group3_def
        str_nat.simps digit_def)
  from 1 ungroup_format_f2 3 4 5 show ?thesis by blast
qed

subsection \<open>Claims about \<open>process_stock_data\<close>\<close>

text \<open>
  C4, as the specification states it, fails: nothing in \<open>process_stock_data\<close> sorts.
  A frame of two complete bars given with timestamps 2, 1 is accepted and comes back
  with timestamps 2, 1.
\<close>

theorem process_stock_data_unsorted_counterexample:
  "\<not> df_empty (frame_of [flat_bar 2 10, flat_bar 1 11])
   \<and> has_required_columns (frame_of [flat_bar 2 10, flat_bar 1 11])
   \<and> fst (process_stock_data (Some 0)
        \<lparr>heap = store_of (frame_of [flat_bar 2 10, flat_bar 1 11]), screen = []\<rparr>) = Some 0
   \<and> index (heap (snd (process_stock_data (Some 0)
        \<lparr>heap = store_of (frame_of [flat_bar 2 10, flat_bar 1 11]), screen = []\<rparr>)) 0) = [2, 1]
   \<and> \<not> sorted [2, 1 :: int]"
  by (simp add: process_stock_data_def df_empty_def frame_of_def flat_bar_def columns_def
      has_required_columns_def required_columns_def)

text \<open>
  C4, amended. For every frame that has at least one row and one column and has the
  five required columns, validation succeeds and returns the reference it was given;
  the store and the page are unchanged, so the frame is the same object with the same
  bars in the same order, and it is in ascending timestamp order exactly when the input
  was.
\<close>

theorem process_stock_data_passes_through:
  "\<not> df_empty (heap s r) \<and>
   has_required_columns (heap s r) \<longrightarrow>
   process_stock_data (Some r) s = (Some r, s)
   \<and> heap (snd (process_stock_data (Some r) s)) r = heap s r
   \<and> (sorted_wrt (<) (index (heap (snd (process_stock_data (Some r) s)) r))
        \<longleftrightarrow> sorted_wrt (<) (index (heap s r)))"
  by (simp add: process_stock_data_def)

theorem process_stock_data_passes_through_witness:
  "\<not> df_empty (frame_of [flat_bar 2 10, flat_bar 1 11])
   \<and> has_required_columns (frame_of [flat_bar 2 10, flat_bar 1 11])
   \<and> process_stock_data (Some 0)
        \<lparr>heap = store_of (frame_of [flat_bar 2 10, flat_bar 1 11]), screen = []\<rparr>
      = (Some 0, \<lparr>heap = store_of (frame_of [flat_bar 2 10, flat_bar 1 11]), screen = []\<rparr>)"
proof -
  let ?s = "\<lparr>heap = store_of (frame_of [flat_bar 2 10, flat_bar 1 11]), screen = []\<rparr>"
  have h: "\<not> df_empty (heap ?s 0)
     \<and> has_required_columns (heap ?s 0)"
    by (simp add: df_empty_def frame_of_def flat_bar_def columns_def
        has_required_columns_def required_columns_def)
  from process_stock_data_passes_through [of ?s 0] h
  have "process_stock_data (Some 0) ?s = (Some 0, ?s)" by blast
  with h show ?thesis by simp
qed

text \<open>
  C5, as the specification states it, fails. A frame with one row and no column at all
  (its bar lacks every field) is empty for pandas and gets exactly the result of an
  absent input: \<open>None\<close> and no message. And a frame that has rows and columns but lacks
  four of the required columns returns \<open>None\<close>, the same return value as the absent
  input.
\<close>

theorem process_stock_data_no_columns_counterexample:
  "process_stock_data (Some 0) \<lparr>heap = store_of \<lparr>index = [1], data = []\<rparr>, screen = []\<rparr>
     = process_stock_data None \<lparr>heap = store_of \<lparr>index = [1], data = []\<rparr>, screen = []\<rparr>
   \<and> fst (process_stock_data (Some 0)
        \<lparr>heap = store_of \<lparr>index = [1], data = [(''Close'', [Num 10])]\<rparr>, screen = []\<rparr>)
     = fst (process_stock_data None
        \<lparr>heap = store_of \<lparr>index = [1], data = [(''Close'', [Num 10])]\<rparr>, screen = []\<rparr>)"
  by (simp add: process_stock_data_def df_empty_def columns_def
      has_required_columns_def required_columns_def)

text \<open>
  C5, amended. An absent input and a frame with no row or no column return \<open>None\<close>
  and put nothing on the page. A frame with at least one row and one column that lacks
  a required column returns \<open>None\<close> as well, after the error message \<open>Missing required
  columns in data\<close>. The return value is the same in both cases; only that message, which
  changes the page, tells them apart.
\<close>

theorem process_stock_data_failures:
  "process_stock_data None s = (None, s)
   \<and> (df_empty (heap s r) \<longrightarrow> process_stock_data (Some r) s = (None, s))
   \<and> (\<not> df_empty (heap s r)
        \<and> \<not> has_required_columns (heap s r) \<longrightarrow>
      process_stock_data (Some r) s = (None, st_error ''Missing required columns in data'' s))
   \<and> screen (st_error ''Missing required columns in data'' s)
       = screen s @ [Error ''Missing required columns in data'']
   \<and> st_error ''Missing required columns in data'' s \<noteq> s"
proof -
  have "screen (st_error ''Missing required columns in data'' s) \<noteq> screen s"
    by (simp add: st_error_def)
  then have "st_error ''Missing required columns in data'' s \<noteq> s" by auto
  then show ?thesis by (simp add: process_stock_data_def st_error_def)
qed

theorem process_stock_data_failures_witness:
  "df_empty \<lparr>index = [], data = [(''Close'', [])]\<rparr>
   \<and> process_stock_data (Some 0)
        \<lparr>heap = store_of \<lparr>index = [], data = [(''Close'', [])]\<rparr>, screen = []\<rparr>
       = (None, \<lparr>heap = store_of \<lparr>index = [], data = [(''Close'', [])]\<rparr>, screen = []\<rparr>)
   \<and> \<not> df_empty \<lparr>index = [1], data = [(''Close'', [Num 10])]\<rparr>
   \<and> \<not> has_required_columns \<lparr>index = [1], data = [(''Close'', [Num 10])]\<rparr>
   \<and> process_stock_data (Some 0)
        \<lparr>heap = store_of \<lparr>index = [1], data = [(''Close'', [Num 10])]\<rparr>, screen = []\<rparr>
       = (None, \<lparr>heap = store_of \<lparr>index = [1], data = [(''Close'', [Num 10])]\<rparr>,
                 screen = [Error ''Missing required columns in data'']\<rparr>)"
proof -
  let ?e = "\<lparr>heap = store_of \<lparr>index = [], data = [(''Close'', [])]\<rparr>, screen = []\<rparr>"
  let ?m = "\<lparr>heap = store_of \<lparr>index = [1], data = [(''Close'', [Num 10])]\<rparr>, screen = []\<rparr>"
  have e: "df_empty (heap ?e 0)" by (simp add: df_empty_def)
  have m: "\<not> df_empty (heap ?m 0)
      \<and> \<not> has_required_columns (heap ?m 0)"
    by (simp add: df_empty_def columns_def has_required_columns_def required_columns_def)
  from process_stock_data_failures [of ?e 0] e
  have 1: "process_stock_data (Some 0) ?e = (None, ?e)" by blast
  from process_stock_data_failures [of ?m 0] m
  have 2: "process_stock_data (Some 0) ?m
      = (None, st_error ''Missing required columns in data'' ?m)" by blast
  from 1 2 e m show ?thesis by (simp add: st_error_def)
qed

subsection \<open>Facts about frames and the sections of \<open>main\<close>\<close>

lemma index_setitem: "index (setitem name xs df) = index df"
  by (simp add: setitem_def)

lemma map_of_replace_other:
  "n \<noteq> m \<Longrightarrow>
   map_of (map (\<lambda>(k, c). if k = m then (k, xs) else (k, c)) kvs) n = map_of kvs n"
  by (induction kvs) auto

lemma map_of_replace_same:
  "m \<in> fst ` set kvs \<Longrightarrow>
   map_of (map (\<lambda>(k, c). if k = m then (k, xs) else (k, c)) kvs) m = Some xs"
  by (induction kvs) auto

lemma getitem_setitem_other:
  "n \<noteq> m \<Longrightarrow> getitem (setitem m xs df) n = getitem df n"
  by (simp add: getitem_def setitem_def map_of_replace_other map_add_def split: option.splits)

lemma getitem_setitem_same: "getitem (setitem m xs df) m = Inr xs"
proof (cases "m \<in> set (columns df)")
  case True
  then have "m \<in> fst ` set (data df)" by (simp add: columns_def)
  then show ?thesis using True by (simp add: getitem_def setitem_def map_of_replace_same)
next
  case False
  then have "map_of (data df) m = None" by (simp add: columns_def map_of_eq_None_iff)
  with False show ?thesis by (simp add: getitem_def setitem_def map_add_def)
qed

lemma map_of_setitem_other:
  "n \<noteq> m \<Longrightarrow> map_of (data (setitem m xs df)) n = map_of (data df) n"
  by (simp add: setitem_def map_of_replace_other map_add_def split: option.splits)

lemma all_Num_map:
  "list_all (\<lambda>x. case x of Num a \<Rightarrow> True | _ \<Rightarrow> False) xs \<Longrightarrow> \<exists>rs. xs = map Num rs"
proof (induction xs)
  case Nil
  then show ?case by simp
next
  case (Cons x xs)
  then obtain rs where "xs = map Num rs" by auto
  moreover from Cons.prems obtain a where "x = Num a" by (cases x) auto
  ultimately have "x # xs = map Num (a # rs)" by simp
  then show ?case by (rule exI)
qed

lemma price_series_getitem:
  assumes "price_series df" and "c \<in> set required_columns"
  shows "\<exists>rs. getitem df c = Inr (map Num rs) \<and> length rs = length (index df)"
proof -
  from assms have "c \<in> set (columns df)"
    by (auto simp: price_series_def has_required_columns_def list_all_iff)
  then obtain xs where in_data: "(c, xs) \<in> set (data df)" by (auto simp: columns_def)
  from assms(1) have "distinct (map fst (data df))" by (simp add: price_series_def columns_def)
  with in_data have m: "map_of (data df) c = Some xs" by simp
  from assms(1) in_data
  have len: "length xs = length (index df)"
    and num: "list_all (\<lambda>x. case x of Num a \<Rightarrow> True | _ \<Rightarrow> False) xs"
    by (auto simp: price_series_def list_all_iff)
  from num obtain rs where "xs = map Num rs" using all_Num_map by blast
  with m len show ?thesis by (auto simp: getitem_def)
qed

lemma fsum_Num: "fsum (map Num rs) = Num (sum_list rs)"
  by (induction rs) (simp_all add: fsum_def)

lemma dropna_Num: "dropna (map Num rs) = map Num rs"
  by (induction rs) (simp_all add: dropna_def)

lemma series_mean_Num:
  "rs \<noteq> [] \<Longrightarrow> series_mean (map Num rs) = Num (sum_list rs / real (length rs))"
proof -
  assume "rs \<noteq> []"
  then obtain a as where rs: "rs = a # as" by (cases rs) auto
  have "fsum (Num a # map Num as) = Num (sum_list (a # as))"
    using fsum_Num [of "a # as"] by simp
  then show ?thesis unfolding rs by (simp add: series_mean_def dropna_Num [of "a # as", simplified])
qed

lemma length_rolling_mean: "length (rolling_mean w xs) = length xs"
  by (simp add: rolling_mean_def)

lemma nth_rolling_mean: "i < length xs \<Longrightarrow> rolling_mean w xs ! i = window_mean w xs i"
  by (simp add: rolling_mean_def)

lemma finite_cells_Num: "list_all finite_cell (map Num rs)"
  by (induction rs) simp_all

lemma window_whole: "length xs = w \<Longrightarrow> 0 < w \<Longrightarrow> window w xs (w - 1) = xs"
  by (simp add: window_def)

lemma window_mean_Num:
  assumes "w \<le> i + 1" and "window w xs i = map Num rs"
  shows "window_mean w xs i = fdiv (Num (sum_list rs)) (Num (real w))"
  using assms by (simp add: window_mean_def finite_cells_Num fsum_Num)

lemma iloc_last:
  "xs \<noteq> [] \<Longrightarrow> iloc_neg xs 1 = Inr (xs ! (length xs - 1))"
  by (cases xs) (simp_all add: iloc_neg_def)

lemma price_chart_run:
  assumes "getitem (heap s r) ''Open'' = Inr opn"
    and "getitem (heap s r) ''High'' = Inr high"
    and "getitem (heap s r) ''Low'' = Inr low"
    and "getitem (heap s r) ''Close'' = Inr close"
    and "getitem (heap s r) ''Volume'' = Inr vol"
  shows "price_chart r s =
     Inr (s\<lparr>screen := screen s @ [Candlestick (index (heap s r)) opn high low close,
                                  Bar (index (heap s r)) vol]\<rparr>)"
  using assms by (simp add: price_chart_def st_plotly_chart_def Let_def)

lemma key_statistics_short:
  assumes "getitem (heap s r) ''Close'' = Inr close" and "length close < 2"
  shows "key_statistics currency_symbol r s = Inl (IndexError, s)"
  using assms by (simp add: key_statistics_def iloc_neg_def Let_def)

lemma key_statistics_run:
  assumes "getitem (heap s r) ''Close'' = Inr close" and "2 \<le> length close"
    and "getitem (heap s r) ''High'' = Inr high"
    and "getitem (heap s r) ''Low'' = Inr low"
    and "getitem (heap s r) ''Volume'' = Inr vol"
    and "py_int (series_mean vol) = Inr n"
  shows "key_statistics currency_symbol r s =
     Inr (s\<lparr>screen := screen s @
        [Metric ''Latest Price''
           (format_currency (close ! (length close - 1)) currency_symbol)
           (Some (format_f2 True False
              (fmul (fdiv (fsub (close ! (length close - 1)) (close ! (length close - 2)))
                      (close ! (length close - 2))) (Num 100)) @ ''%'')),
         Metric ''52-Week High'' (format_currency (series_max high) currency_symbol) None,
         Metric ''52-Week Low'' (format_currency (series_min low) currency_symbol) None,
         Metric ''Average Volume'' (format_int_grouped n) None]\<rparr>)"
  using assms by (simp add: key_statistics_def iloc_neg_def st_metric_def Let_def)

lemma show_ma_run:
  assumes "getitem (heap s r) name = Inr ma" and "length ma = length (index (heap s r))"
    and "0 < w"
  shows "show_ma label name currency_symbol w r s =
     Inr (s\<lparr>screen := screen s @
        (if w \<le> length ma
         then [Metric label (format_currency (ma ! (length ma - 1)) currency_symbol) None]
         else [])\<rparr>)"
proof (cases "w \<le> length ma")
  case True
  with assms(3) have "ma \<noteq> []" by auto
  then have "iloc_neg ma 1 = Inr (ma ! (length ma - 1))" by (rule iloc_last)
  with True assms show ?thesis by (simp add: show_ma_def st_metric_def Let_def)
next
  case False
  with assms show ?thesis by (simp add: show_ma_def Let_def)
qed

lemma moving_averages_run:
  assumes "getitem (heap s r) ''Close'' = Inr close"
    and "length close = length (index (heap s r))"
  shows "moving_averages currency_symbol r s =
     Inr (s\<lparr>heap := (heap s)(r := setitem ''MA200'' (rolling_mean 200 close)
                                  (setitem ''MA50'' (rolling_mean 50 close) (heap s r))),
            screen := screen s @ ma_metrics currency_symbol close\<rparr>)"
proof -
  let ?s1 = "assign_column r ''MA50'' (rolling_mean 50 close) s"
  let ?s2 = "assign_column r ''MA200'' (rolling_mean 200 close) ?s1"
  have h1: "heap ?s1 r = setitem ''MA50'' (rolling_mean 50 close) (heap s r)"
    by (simp add: assign_column_def)
  have h2: "heap ?s2 r = setitem ''MA200'' (rolling_mean 200 close)
              (setitem ''MA50'' (rolling_mean 50 close) (heap s r))"
    by (simp add: assign_column_def)
  have c1: "getitem (heap ?s1 r) ''Close'' = Inr close"
    using assms(1) by (simp add: h1 getitem_setitem_other)
  have ix: "index (heap ?s2 r) = index (heap s r)"
    by (simp add: h2 index_setitem)
  have g50: "getitem (heap ?s2 r) ''MA50'' = Inr (rolling_mean 50 close)"
    by (simp add: h2 getitem_setitem_other getitem_setitem_same)
  have a: "show_ma ''50-Day MA'' ''MA50'' currency_symbol 50 r ?s2 =
     Inr (?s2\<lparr>screen := screen ?s2 @
        (if 50 \<le> length close
         then [Metric ''50-Day MA''
                 (format_currency (window_mean 50 close (length close - 1)) currency_symbol) None]
         else [])\<rparr>)"
    using show_ma_run [OF g50, of 50 "''50-Day MA''" currency_symbol] assms(2) ix
    by (auto simp: length_rolling_mean nth_rolling_mean)
  let ?s3 = "?s2\<lparr>screen := screen ?s2 @
        (if 50 \<le> length close
         then [Metric ''50-Day MA''
                 (format_currency (window_mean 50 close (length close - 1)) currency_symbol) None]
         else [])\<rparr>"
  have g200: "getitem (heap ?s3 r) ''MA200'' = Inr (rolling_mean 200 close)"
    by (simp add: assign_column_def getitem_setitem_same)
  have ix3: "index (heap ?s3 r) = index (heap s r)"
    by (simp add: assign_column_def index_setitem)
  have b: "show_ma ''200-Day MA'' ''MA200'' currency_symbol 200 r ?s3 =
     Inr (?s3\<lparr>screen := screen ?s3 @
        (if 200 \<le> length close
         then [Metric ''200-Day MA''
                 (format_currency (window_mean 200 close (length close - 1)) currency_symbol) None]
         else [])\<rparr>)"
    using show_ma_run [OF g200, of 200 "''200-Day MA''" currency_symbol] assms(2) ix3
    by (auto simp: length_rolling_mean nth_rolling_mean)
  have "moving_averages currency_symbol r s =
      and_then (show_ma ''50-Day MA'' ''MA50'' currency_symbol 50 r ?s2)
        (show_ma ''200-Day MA'' ''MA200'' currency_symbol 200 r)"
    using assms(1) c1 by (simp add: moving_averages_def Let_def)
  also have "\<dots> = show_ma ''200-Day MA'' ''MA200'' currency_symbol 200 r ?s3"
    by (simp only: a and_then_def sum.case)
  also note b
  finally show ?thesis
    by (simp add: assign_column_def ma_metrics_def)
qed

lemma technical_indicators_run:
  assumes "getitem (heap s r) ''Close'' = Inr close"
  shows "technical_indicators r s =
     Inr (s\<lparr>heap := (heap s)(r := setitem ''RSI'' (rsi close) (heap s r)),
            screen := screen s @ [Scatter (index (heap s r)) (rsi close)]\<rparr>)"
  using assms
  by (simp add: technical_indicators_def Let_def assign_column_def getitem_setitem_same
      index_setitem st_plotly_chart_def)

subsection \<open>A whole run of \<open>main\<close> on a price series\<close>

lemma price_series_validated:
  "price_series (h r) \<Longrightarrow>
   process_stock_data (Some r) \<lparr>heap = h, screen = []\<rparr> = (Some r, \<lparr>heap = h, screen = []\<rparr>)"
  by (simp add: price_series_def process_stock_data_def)

lemma py_int_mean_Num:
  "rs \<noteq> [] \<Longrightarrow> \<exists>n. py_int (series_mean (map Num rs)) = Inr n"
  by (simp add: series_mean_Num py_int_def)

lemma main_body_short:
  assumes ps: "price_series (h r)" and short: "length (index (h r)) < 2"
    and o: "getitem (h r) ''Open'' = Inr opn"
    and hi: "getitem (h r) ''High'' = Inr high"
    and lo: "getitem (h r) ''Low'' = Inr low"
    and c: "getitem (h r) ''Close'' = Inr close"
    and v: "getitem (h r) ''Volume'' = Inr vol"
  shows "main_body market r h =
     Inl (IndexError, \<lparr>heap = h, screen = [Candlestick (index (h r)) opn high low close,
                                             Bar (index (h r)) vol]\<rparr>)"
proof -
  let ?s = "\<lparr>heap = h, screen = []\<rparr>"
  let ?s1 = "\<lparr>heap = h, screen = [Candlestick (index (h r)) opn high low close,
                                    Bar (index (h r)) vol]\<rparr>"
  from price_series_getitem [OF ps, of "''Close''"] c
  have len: "length close = length (index (h r))"
    by (auto simp: has_required_columns_def required_columns_def)
  have val: "process_stock_data (Some r) ?s = (Some r, ?s)"
    using ps by (rule price_series_validated [of h r])
  have pc: "price_chart r ?s = Inr ?s1"
    using price_chart_run [of ?s r opn high low close vol] o hi lo c v by simp
  have ks: "key_statistics (get_currency_symbol market) r ?s1 = Inl (IndexError, ?s1)"
    using key_statistics_short [of ?s1 r close] c len short by simp
  show ?thesis
    by (simp add: main_body_def val and_then_def pc ks)
qed

lemma main_body_run:
  assumes ps: "price_series (h r)" and long: "2 \<le> length (index (h r))"
    and o: "getitem (h r) ''Open'' = Inr opn"
    and hi: "getitem (h r) ''High'' = Inr high"
    and lo: "getitem (h r) ''Low'' = Inr low"
    and c: "getitem (h r) ''Close'' = Inr close"
    and v: "getitem (h r) ''Volume'' = Inr vol"
  shows "\<exists>m1 m2 m3 m4 d. main_body market r h =
     Inr \<lparr>heap = h(r := setitem ''RSI'' (rsi close)
                         (setitem ''MA200'' (rolling_mean 200 close)
                           (setitem ''MA50'' (rolling_mean 50 close) (h r)))),
          screen = [Candlestick (index (h r)) opn high low close, Bar (index (h r)) vol,
                    Metric ''Latest Price'' m1 d, Metric ''52-Week High'' m2 None,
                    Metric ''52-Week Low'' m3 None, Metric ''Average Volume'' m4 None]
                   @ ma_metrics (get_currency_symbol market) close
                   @ [Scatter (index (h r)) (rsi close)]\<rparr>"
proof -
  let ?cur = "get_currency_symbol market"
  let ?s = "\<lparr>heap = h, screen = []\<rparr>"
  let ?s1 = "\<lparr>heap = h, screen = [Candlestick (index (h r)) opn high low close,
                                    Bar (index (h r)) vol]\<rparr>"
  from price_series_getitem [OF ps, of "''Close''"] c
  have len: "length close = length (index (h r))"
    by (auto simp: has_required_columns_def required_columns_def)
  from price_series_getitem [OF ps, of "''Volume''"] v
  obtain rs where vol: "vol = map Num rs" and lrs: "length rs = length (index (h r))"
    by (auto simp: has_required_columns_def required_columns_def)
  from lrs long have "rs \<noteq> []" by auto
  then obtain n where n: "py_int (series_mean vol) = Inr n"
    unfolding vol using py_int_mean_Num by blast
  have val: "process_stock_data (Some r) ?s = (Some r, ?s)"
    using ps by (rule price_series_validated [of h r])
  have pc: "price_chart r ?s = Inr ?s1"
    using price_chart_run [of ?s r opn high low close vol] o hi lo c v by simp
  obtain m1 m2 m3 m4 d where ks: "key_statistics ?cur r ?s1 =
      Inr (?s1\<lparr>screen := screen ?s1 @
         [Metric ''Latest Price'' m1 d, Metric ''52-Week High'' m2 None,
          Metric ''52-Week Low'' m3 None, Metric ''Average Volume'' m4 None]\<rparr>)"
    using key_statistics_run [of ?s1 r close high low vol n ?cur] c hi lo v n len long
    by simp
  let ?s2 = "?s1\<lparr>screen := screen ?s1 @
         [Metric ''Latest Price'' m1 d, Metric ''52-Week High'' m2 None,
          Metric ''52-Week Low'' m3 None, Metric ''Average Volume'' m4 None]\<rparr>"
  have ma: "moving_averages ?cur r ?s2 =
     Inr (?s2\<lparr>heap := (heap ?s2)(r := setitem ''MA200'' (rolling_mean 200 close)
                                  (setitem ''MA50'' (rolling_mean 50 close) (heap ?s2 r))),
            screen := screen ?s2 @ ma_metrics ?cur close\<rparr>)"
    using moving_averages_run [of ?s2 r close ?cur] c len by simp
  let ?s3 = "?s2\<lparr>heap := (heap ?s2)(r := setitem ''MA200'' (rolling_mean 200 close)
                                  (setitem ''MA50'' (rolling_mean 50 close) (heap ?s2 r))),
            screen := screen ?s2 @ ma_metrics ?cur close\<rparr>"
  have c3: "getitem (heap ?s3 r) ''Close'' = Inr close"
    using c by (simp add: getitem_setitem_other)
  have ti: "technical_indicators r ?s3 =
     Inr (?s3\<lparr>heap := (heap ?s3)(r := setitem ''RSI'' (rsi close) (heap ?s3 r)),
            screen := screen ?s3 @ [Scatter (index (heap ?s3 r)) (rsi close)]\<rparr>)"
    using c3 by (rule technical_indicators_run)
  have "main_body market r h =
     Inr (?s3\<lparr>heap := (heap ?s3)(r := setitem ''RSI'' (rsi close) (heap ?s3 r)),
            screen := screen ?s3 @ [Scatter (index (heap ?s3 r)) (rsi close)]\<rparr>)"
    by (simp only: main_body_def val and_then_def pc ks ma ti
        Let_def prod.case option.case sum.case)
  then show ?thesis by (simp add: index_setitem)
qed

lemma price_series_columns:
  assumes "price_series df"
  shows "\<exists>opn high low close vol.
     getitem df ''Open'' = Inr opn \<and> getitem df ''High'' = Inr high
     \<and> getitem df ''Low'' = Inr low \<and> getitem df ''Close'' = Inr close
     \<and> getitem df ''Volume'' = Inr vol \<and> length close = length (index df)"
proof -
  from price_series_getitem [OF assms, of "''Open''"]
  obtain opn where 1: "getitem df ''Open'' = Inr opn"
    by (auto simp: has_required_columns_def required_columns_def)
  from price_series_getitem [OF assms, of "''High''"]
  obtain high where 2: "getitem df ''High'' = Inr high"
    by (auto simp: has_required_columns_def required_columns_def)
  from price_series_getitem [OF assms, of "''Low''"]
  obtain low where 3: "getitem df ''Low'' = Inr low"
    by (auto simp: has_required_columns_def required_columns_def)
  from price_series_getitem [OF assms, of "''Close''"]
  obtain close where 4: "getitem df ''Close'' = Inr close"
    and 5: "length close = length (index df)"
    by (auto simp: has_required_columns_def required_columns_def)
  from price_series_getitem [OF assms, of "''Volume''"]
  obtain vol where 6: "getitem df ''Volume'' = Inr vol"
    by (auto simp: has_required_columns_def required_columns_def)
  from 1 2 3 4 5 6 show ?thesis by blast
qed

lemma price_series_flat_bars:
  "price_series (frame_of [flat_bar 1 10])"
  "price_series (frame_of [flat_bar 1 10, flat_bar 2 11])"
  by (simp_all add: price_series_def df_empty_def frame_of_def flat_bar_def columns_def
      has_required_columns_def required_columns_def)

subsection \<open>Claim about a series with fewer than two bars\<close>

text \<open>
  C6, as the specification states it, fails. On a price series of one bar, line 200
  reads \<open>df['Close'].iloc[-2]\<close>, which raises IndexError. The exception leaves the
  \<open>try\<close> of \<open>main\<close>: the page holds the two charts drawn before and the two messages
  of the handler, no metric, no \<open>N/A\<close> and no RSI chart.
\<close>

theorem one_bar_aborts_counterexample:
  "price_series (frame_of [flat_bar 1 10])
   \<and> main_body ''US Stocks'' 0 (store_of (frame_of [flat_bar 1 10]))
       = Inl (IndexError,
              \<lparr>heap = store_of (frame_of [flat_bar 1 10]),
               screen = [Candlestick [1] [Num 10] [Num 10] [Num 10] [Num 10],
                         Bar [1] [Num 1000]]\<rparr>)
   \<and> screen (main ''US Stocks'' 0 (store_of (frame_of [flat_bar 1 10])))
       = [Candlestick [1] [Num 10] [Num 10] [Num 10] [Num 10], Bar [1] [Num 1000],
          Error ''An error occurred: single positional indexer is out-of-bounds'',
          Error ''Please try another symbol or check if the stock exists'']"
proof -
  let ?h = "store_of (frame_of [flat_bar 1 10])"
  have ps: "price_series (?h 0)" by (simp add: price_series_flat_bars)
  have mb: "main_body ''US Stocks'' 0 ?h
       = Inl (IndexError,
              \<lparr>heap = ?h, screen = [Candlestick [1] [Num 10] [Num 10] [Num 10] [Num 10],
                                    Bar [1] [Num 1000]]\<rparr>)"
    using main_body_short [of ?h 0 "[Num 10]" "[Num 10]" "[Num 10]" "[Num 10]" "[Num 1000]"
        "''US Stocks''", OF ps]
    by (simp add: getitem_def frame_of_def flat_bar_def)
  from ps mb show ?thesis by (simp add: main_def st_error_def str_error_def)
qed

text \<open>
  C6, amended. For every price series with fewer than two bars the computation of the
  latest change raises IndexError; the exception ends the run of \<open>main\<close> at that
  line. Nothing that follows is computed (no metric, no moving average, no RSI, the
  frame is left as it was), and the handler of \<open>main\<close> reports the exception in two
  error messages after the two charts already drawn.
\<close>

theorem one_bar_run_aborts:
  "price_series (h r) \<and> length (index (h r)) < 2 \<longrightarrow>
   (\<exists>opn high low close vol.
      main_body market r h
        = Inl (IndexError,
               \<lparr>heap = h, screen = [Candlestick (index (h r)) opn high low close,
                                    Bar (index (h r)) vol]\<rparr>)
      \<and> main market r h
        = \<lparr>heap = h,
           screen = [Candlestick (index (h r)) opn high low close, Bar (index (h r)) vol,
                     Error ''An error occurred: single positional indexer is out-of-bounds'',
                     Error ''Please try another symbol or check if the stock exists'']\<rparr>)"
proof
  assume a: "price_series (h r) \<and> length (index (h r)) < 2"
  then have ps: "price_series (h r)" and short: "length (index (h r)) < 2" by auto
  from price_series_columns [OF ps]
  obtain opn high low close vol where
    g: "getitem (h r) ''Open'' = Inr opn" "getitem (h r) ''High'' = Inr high"
       "getitem (h r) ''Low'' = Inr low" "getitem (h r) ''Close'' = Inr close"
       "getitem (h r) ''Volume'' = Inr vol"
    by blast
  have mb: "main_body market r h
        = Inl (IndexError,
               \<lparr>heap = h, screen = [Candlestick (index (h r)) opn high low close,
                                    Bar (index (h r)) vol]\<rparr>)"
    using ps short g by (rule main_body_short)
  then have "main market r h
        = \<lparr>heap = h,
           screen = [Candlestick (index (h r)) opn high low close, Bar (index (h r)) vol,
                     Error ''An error occurred: single positional indexer is out-of-bounds'',
                     Error ''Please try another symbol or check if the stock exists'']\<rparr>"
    by (simp add: main_def st_error_def str_error_def)
  with mb show "\<exists>opn high low close vol.
      main_body market r h
        = Inl (IndexError,
               \<lparr>heap = h, screen = [Candlestick (index (h r)) opn high low close,
                                    Bar (index (h r)) vol]\<rparr>)
      \<and> main market r h
        = \<lparr>heap = h,
           screen = [Candlestick (index (h r)) opn high low close, Bar (index (h r)) vol,
                     Error ''An error occurred: single positional indexer is out-of-bounds'',
                     Error ''Please try another symbol or check if the stock exists'']\<rparr>"
    by blast
qed

theorem one_bar_run_aborts_witness:
  "price_series (frame_of [flat_bar 7 250]) \<and> length (index (frame_of [flat_bar 7 250])) < 2
   \<and> (\<exists>opn high low close vol.
      main_body Indian_Stocks 0 (store_of (frame_of [flat_bar 7 250]))
        = Inl (IndexError,
               \<lparr>heap = store_of (frame_of [flat_bar 7 250]),
                screen = [Candlestick (index (frame_of [flat_bar 7 250])) opn high low close,
                          Bar (index (frame_of [flat_bar 7 250])) vol]\<rparr>))"
proof -
  have h: "price_series (frame_of [flat_bar 7 250])
      \<and> length (index (frame_of [flat_bar 7 250])) < 2"
    by (simp add: price_series_def df_empty_def frame_of_def flat_bar_def columns_def
        has_required_columns_def required_columns_def)
  from one_bar_run_aborts [of "store_of (frame_of [flat_bar 7 250])" 0 Indian_Stocks] h
  show ?thesis by auto
qed

subsection \<open>The page and the store after a run\<close>

lemma main_short:
  assumes "price_series (h r)" and "length (index (h r)) < 2"
  shows "\<exists>opn high low close vol. main market r h
     = \<lparr>heap = h,
        screen = [Candlestick (index (h r)) opn high low close, Bar (index (h r)) vol,
                  Error ''An error occurred: single positional indexer is out-of-bounds'',
                  Error ''Please try another symbol or check if the stock exists'']\<rparr>"
proof -
  from price_series_columns [OF assms(1)]
  obtain opn high low close vol where
    g: "getitem (h r) ''Open'' = Inr opn" "getitem (h r) ''High'' = Inr high"
       "getitem (h r) ''Low'' = Inr low" "getitem (h r) ''Close'' = Inr close"
       "getitem (h r) ''Volume'' = Inr vol"
    by blast
  have "main_body market r h
        = Inl (IndexError,
               \<lparr>heap = h, screen = [Candlestick (index (h r)) opn high low close,
                                    Bar (index (h r)) vol]\<rparr>)"
    using assms g by (rule main_body_short)
  then have "main market r h
     = \<lparr>heap = h,
        screen = [Candlestick (index (h r)) opn high low close, Bar (index (h r)) vol,
                  Error ''An error occurred: single positional indexer is out-of-bounds'',
                  Error ''Please try another symbol or check if the stock exists'']\<rparr>"
    by (simp add: main_def st_error_def str_error_def)
  then show ?thesis by blast
qed

lemma main_run:
  assumes "price_series (h r)" and "2 \<le> length (index (h r))"
    and "getitem (h r) ''Close'' = Inr close"
  shows "\<exists>opn high low vol m1 m2 m3 m4 d. main market r h =
     \<lparr>heap = h(r := setitem ''RSI'' (rsi close)
                     (setitem ''MA200'' (rolling_mean 200 close)
                       (setitem ''MA50'' (rolling_mean 50 close) (h r)))),
      screen = [Candlestick (index (h r)) opn high low close, Bar (index (h r)) vol,
                Metric ''Latest Price'' m1 d, Metric ''52-Week High'' m2 None,
                Metric ''52-Week Low'' m3 None, Metric ''Average Volume'' m4 None]
               @ ma_metrics (get_currency_symbol market) close
               @ [Scatter (index (h r)) (rsi close)]\<rparr>"
proof -
  from price_series_columns [OF assms(1)] assms(3)
  obtain opn high low vol where
    g: "getitem (h r) ''Open'' = Inr opn" "getitem (h r) ''High'' = Inr high"
       "getitem (h r) ''Low'' = Inr low" "getitem (h r) ''Volume'' = Inr vol"
    by auto
  from main_body_run [where h = h and r = r and market = market,
      OF assms(1,2) g(1,2,3) assms(3) g(4)]
  obtain m1 m2 m3 m4 d where "main_body market r h =
     Inr \<lparr>heap = h(r := setitem ''RSI'' (rsi close)
                         (setitem ''MA200'' (rolling_mean 200 close)
                           (setitem ''MA50'' (rolling_mean 50 close) (h r)))),
          screen = [Candlestick (index (h r)) opn high low close, Bar (index (h r)) vol,
                    Metric ''Latest Price'' m1 d, Metric ''52-Week High'' m2 None,
                    Metric ''52-Week Low'' m3 None, Metric ''Average Volume'' m4 None]
                   @ ma_metrics (get_currency_symbol market) close
                   @ [Scatter (index (h r)) (rsi close)]\<rparr>"
    by blast
  then have "main market r h =
     \<lparr>heap = h(r := setitem ''RSI'' (rsi close)
                     (setitem ''MA200'' (rolling_mean 200 close)
                       (setitem ''MA50'' (rolling_mean 50 close) (h r)))),
      screen = [Candlestick (index (h r)) opn high low close, Bar (index (h r)) vol,
                Metric ''Latest Price'' m1 d, Metric ''52-Week High'' m2 None,
                Metric ''52-Week Low'' m3 None, Metric ''Average Volume'' m4 None]
               @ ma_metrics (get_currency_symbol market) close
               @ [Scatter (index (h r)) (rsi close)]\<rparr>"
    by (simp add: main_def)
  then show ?thesis by blast
qed

lemma main_heap:
  assumes "price_series (h r)" and "getitem (h r) ''Close'' = Inr close"
  shows "heap (main market r h) =
     (if 2 \<le> length (index (h r))
      then h(r := setitem ''RSI'' (rsi close)
                    (setitem ''MA200'' (rolling_mean 200 close)
                      (setitem ''MA50'' (rolling_mean 50 close) (h r))))
      else h)"
proof (cases "2 \<le> length (index (h r))")
  case True
  from main_run [where h = h and r = r and market = market, OF assms(1) True assms(2)] True
  show ?thesis by auto
next
  case False
  then have "length (index (h r)) < 2" by simp
  from main_short [where h = h and r = r and market = market, OF assms(1) this] False
  show ?thesis by auto
qed

lemma main_ma_metrics:
  assumes "price_series (h r)" and "getitem (h r) ''Close'' = Inr close"
    and "label = ''50-Day MA'' \<or> label = ''200-Day MA''"
  shows "Metric label v d \<in> set (screen (main market r h)) \<longleftrightarrow>
     Metric label v d \<in> set (ma_metrics (get_currency_symbol market) close)"
proof (cases "2 \<le> length (index (h r))")
  case True
  from main_run [where h = h and r = r and market = market, OF assms(1) True assms(2)] assms(3)
  show ?thesis by auto
next
  case False
  then have short: "length (index (h r)) < 2" by simp
  from price_series_columns [OF assms(1)] assms(2)
  have "length close = length (index (h r))" by auto
  with short have "ma_metrics (get_currency_symbol market) close = []"
    by (simp add: ma_metrics_def)
  with main_short [where h = h and r = r and market = market, OF assms(1) short]
  show ?thesis by auto
qed

lemma window_mean_full:
  "length cs = w \<Longrightarrow> 0 < w \<Longrightarrow>
   window_mean w (map Num cs) (w - 1) = Num (sum_list cs / real w)"
proof -
  assume "length cs = w" and "0 < w"
  then have "window w (map Num cs) (w - 1) = map Num cs"
    using window_whole [of "map Num cs" w] by simp
  with \<open>0 < w\<close> show ?thesis
    using window_mean_Num [of w "w - 1" "map Num cs" cs] by simp
qed

lemma is_double_int: "\<bar>m\<bar> < 2 ^ 53 \<Longrightarrow> is_double (real_of_int m)"
  unfolding is_double_def by (rule exI [of _ m], rule exI [of _ 0]) simp

lemma is_double_41_4: "is_double (41 / 4)"
proof -
  have "(41 / 4 :: real) = real_of_int 41 / 2 ^ 2" by simp
  moreover have "\<bar>41::int\<bar> < 2 ^ 53" by simp
  ultimately show ?thesis
    unfolding is_double_def by (intro exI [of _ 41] exI [of _ 2]) simp
qed

lemma not_dyadic_2001_200:
  "(2001 / 200 :: real) \<noteq> real_of_int m * 2 ^ k"
  "(2001 / 200 :: real) \<noteq> real_of_int m / 2 ^ k"
proof -
  show "(2001 / 200 :: real) \<noteq> real_of_int m * 2 ^ k"
  proof
    assume "(2001 / 200 :: real) = real_of_int m * 2 ^ k"
    then have "real_of_int 2001 = real_of_int (200 * (m * 2 ^ k))" by simp
    then have "(2001::int) = 200 * (m * 2 ^ k)" by (simp only: of_int_eq_iff)
    then have "(200::int) dvd 2001" by (metis dvd_triv_left)
    then show False by simp
  qed
  show "(2001 / 200 :: real) \<noteq> real_of_int m / 2 ^ k"
  proof
    assume "(2001 / 200 :: real) = real_of_int m / 2 ^ k"
    then have "real_of_int (2001 * 2 ^ k) = real_of_int (200 * m)"
      by (simp add: field_simps)
    then have e: "(2001::int) * 2 ^ k = 200 * m" by (simp only: of_int_eq_iff)
    have "(5::int) dvd 200 * m" by simp
    with e have "(5::int) dvd 2001 * 2 ^ k" by simp
    moreover have "coprime (5::int) (2 ^ k)" by simp
    ultimately have "(5::int) dvd 2001" by (simp add: coprime_dvd_mult_left_iff)
    then show False by simp
  qed
qed

subsection \<open>Claim about the moving averages\<close>

text \<open>
  C2, as the specification states it, fails in its equality. Take 49 closes of 10.00
  and one of 10.25, each of them a value a cell can hold. Their arithmetic mean is
  2001/200, that is 10.005, which exact arithmetic gives for the average at the last
  index; it has a factor 5 in its denominator and is no binary64 value. The cell of the
  program holds the double next to it instead, so the moving average is not equal to
  the arithmetic mean of the closes, and the page shows that double to two decimals.
\<close>

theorem sma_not_exact_mean_counterexample:
  "list_all is_double (replicate 49 10 @ [41 / 4])
   \<and> length (replicate 49 (10::real) @ [41 / 4]) = 50
   \<and> sum_list (replicate 49 10 @ [41 / 4]) / 50 = (2001 / 200 :: real)
   \<and> rolling_mean 50 (map Num (replicate 49 10 @ [41 / 4])) ! 49 = Num (2001 / 200)
   \<and> \<not> is_double (2001 / 200)"
proof -
  let ?cs = "replicate 49 (10::real) @ [41 / 4]"
  have "is_double 10" using is_double_int [of 10] by simp
  then have d: "list_all is_double ?cs" by (simp add: list_all_iff is_double_41_4)
  have l: "length ?cs = 50" by simp
  have m: "sum_list ?cs / 50 = 2001 / 200" by (simp add: sum_list_replicate)
  have "window_mean 50 (map Num ?cs) 49 = Num (sum_list ?cs / real 50)"
    using window_mean_full [of ?cs 50] by simp
  with m have r: "rolling_mean 50 (map Num ?cs) ! 49 = Num (2001 / 200)"
    by (simp add: nth_rolling_mean)
  have n: "\<not> is_double (2001 / 200)"
    unfolding is_double_def using not_dyadic_2001_200 by blast
  from d l m r n show ?thesis by blast
qed

text \<open>
  C2, amended. Take a price series whose close column holds the numbers \<open>cs\<close>, one
  per bar. For the window 50 and for the window 200: when the series has exactly as
  many bars as the window, the window at the last index holds all the closes and the
  moving average there is defined, a finite number: the mean of all closes as the
  arithmetic of the cells evaluates it, equal to the arithmetic mean up to the rounding
  of that arithmetic and no further. A metric for the window is on the page exactly
  when the series has at least as many bars as the window, so a shorter series shows
  none.
\<close>

theorem sma_boundary:
  "price_series (h r) \<and> getitem (h r) ''Close'' = Inr (map Num cs) \<longrightarrow>
     length cs = length (index (h r))
   \<and> (length cs = 50 \<longrightarrow>
        window 50 (map Num cs) 49 = map Num cs
        \<and> (\<exists>m. rolling_mean 50 (map Num cs) ! 49 = Num m))
   \<and> (length cs = 200 \<longrightarrow>
        window 200 (map Num cs) 199 = map Num cs
        \<and> (\<exists>m. rolling_mean 200 (map Num cs) ! 199 = Num m))
   \<and> ((\<exists>v d. Metric ''50-Day MA'' v d \<in> set (screen (main market r h)))
        \<longleftrightarrow> 50 \<le> length cs)
   \<and> ((\<exists>v d. Metric ''200-Day MA'' v d \<in> set (screen (main market r h)))
        \<longleftrightarrow> 200 \<le> length cs)"
proof
  assume a: "price_series (h r) \<and> getitem (h r) ''Close'' = Inr (map Num cs)"
  then have ps: "price_series (h r)" and c: "getitem (h r) ''Close'' = Inr (map Num cs)"
    by auto
  note mm = main_ma_metrics [where h = h and r = r and market = market, OF ps c]
  from price_series_columns [OF ps] c
  have len: "length cs = length (index (h r))" by auto
  have 1: "length cs = 50 \<longrightarrow>
        window 50 (map Num cs) 49 = map Num cs
        \<and> (\<exists>m. rolling_mean 50 (map Num cs) ! 49 = Num m)"
  proof
    assume l: "length cs = 50"
    have w: "window 50 (map Num cs) 49 = map Num cs"
      using window_whole [of "map Num cs" 50] l by simp
    have "rolling_mean 50 (map Num cs) ! 49 = Num (sum_list cs / 50)"
      using window_mean_full [of cs 50] l by (simp add: nth_rolling_mean)
    then have "\<exists>m. rolling_mean 50 (map Num cs) ! 49 = Num m" by (rule exI)
    with w show "window 50 (map Num cs) 49 = map Num cs
        \<and> (\<exists>m. rolling_mean 50 (map Num cs) ! 49 = Num m)" by (rule conjI)
  qed
  have 2: "length cs = 200 \<longrightarrow>
        window 200 (map Num cs) 199 = map Num cs
        \<and> (\<exists>m. rolling_mean 200 (map Num cs) ! 199 = Num m)"
  proof
    assume l: "length cs = 200"
    have w: "window 200 (map Num cs) 199 = map Num cs"
      using window_whole [of "map Num cs" 200] l by simp
    have "rolling_mean 200 (map Num cs) ! 199 = Num (sum_list cs / 200)"
      using window_mean_full [of cs 200] l by (simp add: nth_rolling_mean)
    then have "\<exists>m. rolling_mean 200 (map Num cs) ! 199 = Num m" by (rule exI)
    with w show "window 200 (map Num cs) 199 = map Num cs
        \<and> (\<exists>m. rolling_mean 200 (map Num cs) ! 199 = Num m)" by (rule conjI)
  qed
  have 3: "(\<exists>v d. Metric ''50-Day MA'' v d \<in> set (screen (main market r h)))
        \<longleftrightarrow> 50 \<le> length cs"
    by (simp add: mm ma_metrics_def)
  have 4: "(\<exists>v d. Metric ''200-Day MA'' v d \<in> set (screen (main market r h)))
        \<longleftrightarrow> 200 \<le> length cs"
    by (simp add: mm ma_metrics_def)
  from len 1 2 3 4 show "length cs = length (index (h r))
   \<and> (length cs = 50 \<longrightarrow>
        window 50 (map Num cs) 49 = map Num cs
        \<and> (\<exists>m. rolling_mean 50 (map Num cs) ! 49 = Num m))
   \<and> (length cs = 200 \<longrightarrow>
        window 200 (map Num cs) 199 = map Num cs
        \<and> (\<exists>m. rolling_mean 200 (map Num cs) ! 199 = Num m))
   \<and> ((\<exists>v d. Metric ''50-Day MA'' v d \<in> set (screen (main market r h)))
        \<longleftrightarrow> 50 \<le> length cs)
   \<and> ((\<exists>v d. Metric ''200-Day MA'' v d \<in> set (screen (main market r h)))
        \<longleftrightarrow> 200 \<le> length cs)"
    by blast
qed

theorem sma_boundary_witness:
  "price_series (frame_of (map (\<lambda>t. flat_bar (int t) 10) [0..<50]))
   \<and> getitem (frame_of (map (\<lambda>t. flat_bar (int t) 10) [0..<50])) ''Close''
       = Inr (map Num (map (\<lambda>t. 10) [0..<50]))
   \<and> length (map (\<lambda>t. 10 :: real) [0..<50]) = 50
   \<and> (\<exists>m. rolling_mean 50 (map Num (map (\<lambda>t. 10) [0..<50])) ! 49 = Num m)
   \<and> (\<exists>v d. Metric ''50-Day MA'' v d
       \<in> set (screen (main US_Stocks 0
                 (store_of (frame_of (map (\<lambda>t. flat_bar (int t) 10) [0..<50]))))))
   \<and> \<not> (\<exists>v d. Metric ''200-Day MA'' v d
       \<in> set (screen (main US_Stocks 0
                 (store_of (frame_of (map (\<lambda>t. flat_bar (int t) 10) [0..<50]))))))"
proof -
  let ?bs = "map (\<lambda>t. flat_bar (int t) 10) [0..<50]"
  let ?cs = "map (\<lambda>t. 10 :: real) [0..<50]"
  have ps: "price_series (store_of (frame_of ?bs) 0)"
    by (simp add: price_series_def df_empty_def frame_of_def columns_def
        has_required_columns_def required_columns_def list_all_iff)
  have c: "getitem (store_of (frame_of ?bs) 0) ''Close'' = Inr (map Num ?cs)"
    by (simp add: getitem_def frame_of_def flat_bar_def)
  have len: "length ?cs = 50" by simp
  from sma_boundary [of "store_of (frame_of ?bs)" 0 ?cs US_Stocks] ps c len
  have "\<exists>m. rolling_mean 50 (map Num ?cs) ! 49 = Num m"
    and "\<exists>v d. Metric ''50-Day MA'' v d
        \<in> set (screen (main US_Stocks 0 (store_of (frame_of ?bs))))"
    and "\<not> (\<exists>v d. Metric ''200-Day MA'' v d
        \<in> set (screen (main US_Stocks 0 (store_of (frame_of ?bs)))))"
    by simp_all
  with ps c len show ?thesis by simp
qed

subsection \<open>Claim about the effect of the indicators on the series\<close>

text \<open>
  C8, as the specification states it, fails. The validator returns the reference it
  was given, and lines 214, 215 and 232 assign to \<open>df\<close>, the frame behind that
  reference: after a run on two bars the validated frame itself has the three columns
  \<open>MA50\<close>, \<open>MA200\<close> and \<open>RSI\<close> and is no longer the frame that was validated.
\<close>

theorem derived_columns_in_place_counterexample:
  "price_series (frame_of [flat_bar 1 10, flat_bar 2 11])
   \<and> fst (process_stock_data (Some 0)
        \<lparr>heap = store_of (frame_of [flat_bar 1 10, flat_bar 2 11]), screen = []\<rparr>) = Some 0
   \<and> columns (heap (main US_Stocks 0 (store_of (frame_of [flat_bar 1 10, flat_bar 2 11]))) 0)
       = [''Open'', ''High'', ''Low'', ''Close'', ''Volume'', ''MA50'', ''MA200'', ''RSI'']
   \<and> heap (main US_Stocks 0 (store_of (frame_of [flat_bar 1 10, flat_bar 2 11]))) 0
       \<noteq> frame_of [flat_bar 1 10, flat_bar 2 11]"
proof -
  let ?df = "frame_of [flat_bar 1 10, flat_bar 2 11]"
  let ?h = "store_of ?df"
  have ps: "price_series (?h 0)" by (simp add: price_series_flat_bars)
  have v: "fst (process_stock_data (Some 0) \<lparr>heap = ?h, screen = []\<rparr>) = Some 0"
    using price_series_validated [where h = ?h and r = 0, OF ps] by simp
  have c: "getitem (?h 0) ''Close'' = Inr [Num 10, Num 11]"
    by (simp add: getitem_def frame_of_def flat_bar_def)
  have hp: "heap (main US_Stocks 0 ?h) 0
      = setitem ''RSI'' (rsi [Num 10, Num 11])
          (setitem ''MA200'' (rolling_mean 200 [Num 10, Num 11])
            (setitem ''MA50'' (rolling_mean 50 [Num 10, Num 11]) ?df))"
    using main_heap [where h = ?h and r = 0 and market = US_Stocks, OF ps c]
    by (simp add: frame_of_def)
  have cols: "columns (heap (main US_Stocks 0 ?h) 0)
      = [''Open'', ''High'', ''Low'', ''Close'', ''Volume'', ''MA50'', ''MA200'', ''RSI'']"
    unfolding hp by (simp add: setitem_def columns_def frame_of_def)
  have "columns ?df = [''Open'', ''High'', ''Low'', ''Close'', ''Volume'']"
    by (simp add: columns_def frame_of_def)
  with cols have "heap (main US_Stocks 0 ?h) 0 \<noteq> ?df" by auto
  with ps v cols show ?thesis by simp
qed

text \<open>
  C8, amended. For every price series, a run of \<open>main\<close> leaves the index of the
  validated frame, every column other than \<open>MA50\<close>, \<open>MA200\<close> and \<open>RSI\<close>, and every
  other frame of the store unchanged. With two bars or more the three derived columns
  are written into the validated frame itself, no copy being made; with fewer the run
  ends before them and the store is unchanged.
\<close>

theorem indicators_frame_effect:
  "price_series (h r) \<longrightarrow>
     index (heap (main market r h) r) = index (h r)
   \<and> (\<forall>name. name \<notin> {''MA50'', ''MA200'', ''RSI''} \<longrightarrow>
        getitem (heap (main market r h) r) name = getitem (h r) name)
   \<and> (\<forall>a. a \<noteq> r \<longrightarrow> heap (main market r h) a = h a)
   \<and> (2 \<le> length (index (h r)) \<longrightarrow>
        (\<exists>close. getitem (h r) ''Close'' = Inr close
           \<and> getitem (heap (main market r h) r) ''MA50'' = Inr (rolling_mean 50 close)
           \<and> getitem (heap (main market r h) r) ''MA200'' = Inr (rolling_mean 200 close)
           \<and> getitem (heap (main market r h) r) ''RSI'' = Inr (rsi close)))
   \<and> (length (index (h r)) < 2 \<longrightarrow> heap (main market r h) = h)"
proof
  assume ps: "price_series (h r)"
  from price_series_columns [OF ps]
  obtain close where c: "getitem (h r) ''Close'' = Inr close" by blast
  note mh = main_heap [where h = h and r = r and market = market, OF ps c]
  have 1: "index (heap (main market r h) r) = index (h r)"
    by (simp add: mh index_setitem)
  have 2: "\<forall>name. name \<notin> {''MA50'', ''MA200'', ''RSI''} \<longrightarrow>
        getitem (heap (main market r h) r) name = getitem (h r) name"
    by (simp add: mh getitem_setitem_other)
  have 3: "\<forall>a. a \<noteq> r \<longrightarrow> heap (main market r h) a = h a"
    by (simp add: mh)
  have 4: "2 \<le> length (index (h r)) \<longrightarrow>
        (\<exists>close. getitem (h r) ''Close'' = Inr close
           \<and> getitem (heap (main market r h) r) ''MA50'' = Inr (rolling_mean 50 close)
           \<and> getitem (heap (main market r h) r) ''MA200'' = Inr (rolling_mean 200 close)
           \<and> getitem (heap (main market r h) r) ''RSI'' = Inr (rsi close))"
    using c by (simp add: mh getitem_setitem_other getitem_setitem_same)
  have 5: "length (index (h r)) < 2 \<longrightarrow> heap (main market r h) = h"
    by (simp add: mh)
  from 1 2 3 4 5 show "index (heap (main market r h) r) = index (h r)
   \<and> (\<forall>name. name \<notin> {''MA50'', ''MA200'', ''RSI''} \<longrightarrow>
        getitem (heap (main market r h) r) name = getitem (h r) name)
   \<and> (\<forall>a. a \<noteq> r \<longrightarrow> heap (main market r h) a = h a)
   \<and> (2 \<le> length (index (h r)) \<longrightarrow>
        (\<exists>close. getitem (h r) ''Close'' = Inr close
           \<and> getitem (heap (main market r h) r) ''MA50'' = Inr (rolling_mean 50 close)
           \<and> getitem (heap (main market r h) r) ''MA200'' = Inr (rolling_mean 200 close)
           \<and> getitem (heap (main market r h) r) ''RSI'' = Inr (rsi close)))
   \<and> (length (index (h r)) < 2 \<longrightarrow> heap (main market r h) = h)"
    by blast
qed

theorem indicators_frame_effect_witness:
  "price_series (frame_of [flat_bar 1 10, flat_bar 2 12, flat_bar 3 9])
   \<and> 2 \<le> length (index (frame_of [flat_bar 1 10, flat_bar 2 12, flat_bar 3 9]))
   \<and> ''Close'' \<notin> {''MA50'', ''MA200'', ''RSI''}
   \<and> getitem (heap (main Indian_Stocks 0
        (store_of (frame_of [flat_bar 1 10, flat_bar 2 12, flat_bar 3 9]))) 0) ''Close''
       = Inr [Num 10, Num 12, Num 9]
   \<and> getitem (heap (main Indian_Stocks 0
        (store_of (frame_of [flat_bar 1 10, flat_bar 2 12, flat_bar 3 9]))) 0) ''MA50''
       = Inr [NaN, NaN, NaN]"
proof -
  let ?df = "frame_of [flat_bar 1 10, flat_bar 2 12, flat_bar 3 9]"
  have ps: "price_series ?df"
    by (simp add: price_series_def df_empty_def frame_of_def flat_bar_def columns_def
        has_required_columns_def required_columns_def)
  have n: "2 \<le> length (index ?df)" by (simp add: frame_of_def)
  have c: "getitem ?df ''Close'' = Inr [Num 10, Num 12, Num 9]"
    by (simp add: getitem_def frame_of_def flat_bar_def)
  have ne: "''Close'' \<notin> {''MA50'', ''MA200'', ''RSI''}" by simp
  have rm: "rolling_mean 50 [Num 10, Num 12, Num 9] = [NaN, NaN, NaN]"
    by (simp add: rolling_mean_def window_mean_def upt_rec)
  from indicators_frame_effect [of "store_of ?df" 0 Indian_Stocks] ps n c ne
  have "getitem (heap (main Indian_Stocks 0 (store_of ?df)) 0) ''Close''
          = Inr [Num 10, Num 12, Num 9]"
    and "getitem (heap (main Indian_Stocks 0 (store_of ?df)) 0) ''MA50''
          = Inr (rolling_mean 50 [Num 10, Num 12, Num 9])"
    by auto
  with ps n ne rm show ?thesis by simp
qed

subsection \<open>Facts about the RSI column\<close>

lemma length_diff: "length (diff xs) = length xs"
  by (cases xs) (simp_all add: diff_def)

lemma length_rsi_gain: "length (rsi_gain close) = length close"
  by (simp add: rsi_gain_def series_where_def length_rolling_mean length_diff)

lemma length_rsi_loss: "length (rsi_loss close) = length close"
  by (simp add: rsi_loss_def series_where_def length_rolling_mean length_diff)

lemma rsi_nth:
  "i < length close \<Longrightarrow>
   rsi close ! i =
     fsub (Num 100)
       (fdiv (Num 100) (fadd (Num 1) (fdiv (rsi_gain close ! i) (rsi_loss close ! i))))"
  by (simp add: rsi_def Let_def length_rsi_gain length_rsi_loss)

lemma rsi_undefined_before_13:
  "i < length close \<Longrightarrow> i < 13 \<Longrightarrow> rsi close ! i = NaN"
  by (simp add: rsi_nth rsi_gain_def Let_def series_where_def length_diff
      nth_rolling_mean window_mean_def fsub_def)

lemma fsub_zip_Num:
  "map (\<lambda>(a, b). fsub a b) (zip (map Num xs) (map Num ys))
     = map Num (map (\<lambda>(a, b). a - b) (zip xs ys))"
proof (induction xs arbitrary: ys)
  case Nil
  then show ?case by simp
next
  case (Cons x xs)
  then show ?case by (cases ys) (simp_all add: fsub_def)
qed

lemma diff_Num:
  "cs \<noteq> [] \<Longrightarrow>
   diff (map Num cs) = NaN # map Num (map (\<lambda>(a, b). a - b) (zip (tl cs) cs))"
proof (cases cs)
  case Nil
  assume "cs \<noteq> []"
  with Nil show ?thesis by simp
next
  case (Cons c rest)
  have "diff (map Num cs) =
      NaN # map (\<lambda>(a, b). fsub a b) (zip (map Num rest) (map Num (c # rest)))"
    by (simp add: diff_def Cons)
  also have "\<dots> = NaN # map Num (map (\<lambda>(a, b). a - b) (zip rest (c # rest)))"
    by (simp only: fsub_zip_Num)
  finally show ?thesis by (simp add: Cons)
qed

lemma fsum_zeros: "fsum (replicate k (Num 0)) = Num 0"
  by (induction k) (simp_all add: fsum_def)

lemma steps_nonneg:
  "sorted cs \<Longrightarrow> d \<in> set (map (\<lambda>(a, b). a - b) (zip (tl cs) cs)) \<Longrightarrow> 0 \<le> (d::real)"
proof (induction cs arbitrary: d)
  case Nil
  then show ?case by simp
next
  case (Cons c cs)
  show ?case
  proof (cases cs)
    case Nil
    with Cons.prems show ?thesis by simp
  next
    case (Cons e es)
    with Cons.prems Cons.IH [of d] show ?thesis by auto
  qed
qed

lemma steps_telescope:
  "k < length cs \<Longrightarrow>
   sum_list (take k (map (\<lambda>(a, b). a - b) (zip (tl cs) cs))) = cs ! k - cs ! 0"
  for cs :: "real list"
proof (induction k)
  case 0
  then show ?case by simp
next
  case (Suc k)
  let ?ds = "map (\<lambda>(a, b). a - b) (zip (tl cs) cs)"
  from Suc.prems have k: "k < length ?ds" by simp
  then have "take (Suc k) ?ds = take k ?ds @ [?ds ! k]"
    by (rule take_Suc_conv_app_nth)
  moreover from Suc.prems have "?ds ! k = cs ! Suc k - cs ! k"
    by (simp add: nth_tl)
  moreover from Suc have "sum_list (take k ?ds) = cs ! k - cs ! 0" by simp
  ultimately show ?case by simp
qed

lemma gain_raw_sorted:
  assumes "\<forall>d \<in> set ds. 0 \<le> d"
  shows "series_where (\<lambda>d. fgt d (Num 0)) (Num 0) (NaN # map Num ds) = map Num (0 # ds)"
  using assms by (induction ds) (auto simp: series_where_def fgt_def)

lemma loss_raw_sorted:
  assumes "\<forall>d \<in> set ds. 0 \<le> d"
  shows "map fneg (series_where (\<lambda>d. flt d (Num 0)) (Num 0) (NaN # map Num ds))
     = replicate (Suc (length ds)) (Num 0)"
  using assms by (induction ds) (auto simp: series_where_def)

lemma sorted_first_window:
  assumes s: "sorted cs" and n: "14 \<le> length cs"
  shows "rsi_loss (map Num cs) ! 13 = Num 0"
    and "rsi_gain (map Num cs) ! 13 = Num ((cs ! 13 - cs ! 0) / 14)"
proof -
  let ?ds = "map (\<lambda>(a, b). a - b) (zip (tl cs) cs)"
  from n have ne: "cs \<noteq> []" by auto
  have nn: "\<forall>d \<in> set ?ds. 0 \<le> d" using steps_nonneg [OF s] by blast
  have d: "diff (map Num cs) = NaN # map Num ?ds" using ne by (rule diff_Num)
  have l13: "13 < length (replicate (Suc (length ?ds)) (Num 0))"
    using n by simp
  have "window 14 (replicate (Suc (length ?ds)) (Num 0)) 13
      = map Num (replicate (min 14 (Suc (length ?ds))) 0)"
    by (simp only: window_def take_replicate map_replicate) simp
  then have "window_mean 14 (replicate (Suc (length ?ds)) (Num 0)) 13 = Num 0"
    using window_mean_Num [of 14 13 "replicate (Suc (length ?ds)) (Num 0)"
        "replicate (min 14 (Suc (length ?ds))) 0"]
    by (simp add: sum_list_replicate)
  then show "rsi_loss (map Num cs) ! 13 = Num 0"
    using l13 by (simp only: rsi_loss_def Let_def d loss_raw_sorted [OF nn] nth_rolling_mean)
  have g13: "13 < length (map Num (0 # ?ds))" using n by simp
  have tel: "sum_list (take 13 ?ds) = cs ! 13 - cs ! 0"
    using n by (simp add: steps_telescope)
  have "window 14 (map Num (0 # ?ds)) 13 = map Num (0 # take 13 ?ds)"
    by (simp add: window_def take_map)
  then have "window_mean 14 (map Num (0 # ?ds)) 13
      = fdiv (Num (sum_list (0 # take 13 ?ds))) (Num (real 14))"
    by (rule window_mean_Num [rotated]) simp
  also have "\<dots> = Num ((cs ! 13 - cs ! 0) / 14)"
    using tel by simp
  finally have "window_mean 14 (map Num (0 # ?ds)) 13 = Num ((cs ! 13 - cs ! 0) / 14)" .
  then show "rsi_gain (map Num cs) ! 13 = Num ((cs ! 13 - cs ! 0) / 14)"
    using g13 by (simp only: rsi_gain_def Let_def d gain_raw_sorted [OF nn] nth_rolling_mean)
qed

subsection \<open>Claim about the RSI when the average loss is zero\<close>

text \<open>
  C1, as the specification states it, fails. For fifteen equal closes, a series that
  never decreases, the average loss at index 13 is zero, and so is the average gain:
  \<open>rs\<close> is \<open>0 / 0\<close>, and the RSI there is \<open>NaN\<close>, not 100. The code has no test for a
  zero loss; what it gives is what the division gives.
\<close>

theorem rsi_flat_counterexample:
  "sorted (replicate 15 (5::real))
   \<and> rsi_loss (map Num (replicate 15 5)) ! 13 = Num 0
   \<and> rsi (map Num (replicate 15 5)) ! 13 = NaN"
proof -
  have s: "sorted (replicate 15 (5::real))" by simp
  have l: "14 \<le> length (replicate 15 (5::real))" by simp
  have i: "13 < length (map Num (replicate 15 (5::real)))" by simp
  from sorted_first_window [OF s l]
  have "rsi_loss (map Num (replicate 15 5)) ! 13 = Num 0"
    and "rsi_gain (map Num (replicate 15 5)) ! 13 = Num 0"
    by simp_all
  with s rsi_nth [OF i] show ?thesis by (simp add: fsub_def)
qed

text \<open>
  C1, amended. At every index where the 14-period average loss is zero and the
  14-period average gain is positive, the RSI is exactly 100. In particular, for every
  series of at least fourteen closes that never decreases and whose fourteenth close is
  above its first, the RSI is 100 at index 13, and this is the first index at which it
  is defined.
\<close>

theorem rsi_saturates:
  "(i < length close \<and> rsi_loss close ! i = Num 0 \<and> rsi_gain close ! i = Num g \<and> 0 < g
      \<longrightarrow> rsi close ! i = Num 100)
   \<and> (sorted cs \<and> 14 \<le> length cs \<and> cs ! 0 < cs ! 13
      \<longrightarrow> rsi (map Num cs) ! 13 = Num 100
          \<and> (\<forall>j<13. rsi (map Num cs) ! j = NaN))"
proof
  show "i < length close \<and> rsi_loss close ! i = Num 0 \<and> rsi_gain close ! i = Num g \<and> 0 < g
      \<longrightarrow> rsi close ! i = Num 100"
    by (simp add: rsi_nth fsub_def)
next
  show "sorted cs \<and> 14 \<le> length cs \<and> cs ! 0 < cs ! 13
      \<longrightarrow> rsi (map Num cs) ! 13 = Num 100 \<and> (\<forall>j<13. rsi (map Num cs) ! j = NaN)"
  proof
    assume a: "sorted cs \<and> 14 \<le> length cs \<and> cs ! 0 < cs ! 13"
    then have s: "sorted cs" and n: "14 \<le> length cs" and up: "cs ! 0 < cs ! 13" by auto
    from n have i: "13 < length (map Num cs)" by simp
    from sorted_first_window [OF s n] up rsi_nth [OF i]
    have "rsi (map Num cs) ! 13 = Num 100" by (simp add: fsub_def)
    moreover have "\<forall>j<13. rsi (map Num cs) ! j = NaN"
      using n by (simp add: rsi_undefined_before_13)
    ultimately show "rsi (map Num cs) ! 13 = Num 100 \<and> (\<forall>j<13. rsi (map Num cs) ! j = NaN)"
      by blast
  qed
qed

theorem rsi_saturates_witness:
  "13 < length (map Num (map real [1..<16]))
   \<and> rsi_loss (map Num (map real [1..<16])) ! 13 = Num 0
   \<and> rsi_gain (map Num (map real [1..<16])) ! 13 = Num (13 / 14)
   \<and> (0::real) < 13 / 14
   \<and> sorted (map real [1..<16]) \<and> 14 \<le> length (map real [1..<16])
   \<and> map real [1..<16] ! 0 < map real [1..<16] ! 13
   \<and> rsi (map Num (map real [1..<16])) ! 13 = Num 100"
proof -
  let ?cs = "map real [1..<16]"
  have s: "sorted ?cs" by (simp add: sorted_map)
  have n: "14 \<le> length ?cs" by simp
  have up: "?cs ! 0 < ?cs ! 13" by simp
  have i: "13 < length (map Num ?cs)" by simp
  from sorted_first_window [OF s n]
  have l: "rsi_loss (map Num ?cs) ! 13 = Num 0"
    and g: "rsi_gain (map Num ?cs) ! 13 = Num (13 / 14)"
    by simp_all
  have p: "(0::real) < 13 / 14" by simp
  from rsi_saturates [of 13 "map Num ?cs" "13 / 14" ?cs] i l g p s n up
  have "rsi (map Num ?cs) ! 13 = Num 100" by blast
  with i l g p s n up show ?thesis by blast
qed

end
